theory Spec2Isabelle
  imports Main
begin

section \<open>JavaScript values\<close>

text \<open>
  The values that the answer fields and the rendered cells hold. Numbers are the
  integers; \<open>JObj t\<close> stands for an object or a function whose conversion to a
  string is \<open>t\<close> (the values a property lookup inherits from \<open>Object.prototype\<close>).
\<close>

datatype jsval = JUndefined | JNull | JNum int | JStr string | JObj string

fun truthy :: "jsval \<Rightarrow> bool" where
  "truthy JUndefined = False"
| "truthy JNull = False"
| "truthy (JNum n) = (n \<noteq> 0)"
| "truthy (JStr s) = (s \<noteq> [])"
| "truthy (JObj t) = True"

text \<open>The operator \<open>a || b\<close>.\<close>

definition js_or :: "jsval \<Rightarrow> jsval \<Rightarrow> jsval" where
  "js_or a b = (if truthy a then a else b)"

subsection \<open>Numbers as decimal text\<close>

definition digit_char :: "nat \<Rightarrow> char" where
  "digit_char d = ''0123456789'' ! d"

fun show_nat :: "nat \<Rightarrow> string" where
  "show_nat n = (if n < 10 then [digit_char n] else show_nat (n div 10) @ [digit_char (n mod 10)])"

declare show_nat.simps [simp del]

definition show_int :: "int \<Rightarrow> string" where
  "show_int i = (if i < 0 then CHR ''-'' # show_nat (nat (- i)) else show_nat (nat i))"

text \<open>
  \<open>String(v)\<close>, as string concatenation and property keys use it. The numbers of the
  model are integers, the ratings and counts of the page; they are printed in decimal,
  as JavaScript prints an integer below \<open>10^21\<close>.
\<close>

fun js_string :: "jsval \<Rightarrow> string" where
  "js_string JUndefined = ''undefined''"
| "js_string JNull = ''null''"
| "js_string (JNum n) = show_int n"
| "js_string (JStr s) = s"
| "js_string (JObj t) = t"

text \<open>\<open>Array.prototype.join\<close>: \<open>null\<close> and \<open>undefined\<close> elements give the empty string.\<close>

fun join_cell :: "jsval \<Rightarrow> string" where
  "join_cell JUndefined = []"
| "join_cell JNull = []"
| "join_cell v = js_string v"

fun join :: "string \<Rightarrow> jsval list \<Rightarrow> string" where
  "join sep [] = []"
| "join sep [v] = join_cell v"
| "join sep (v # w # vs) = join_cell v @ sep @ join sep (w # vs)"

section \<open>The flow controller (js/app.js)\<close>

text \<open>
  \<open>app.state\<close>: the current screen, the start time (\<open>None\<close> is \<open>null\<close>) and the
  answers, an object read by property name (a name it does not hold reads \<open>undefined\<close>).
\<close>

type_synonym responses = "string \<Rightarrow> jsval"

record app_state =
  currentScreen :: string
  startTime :: "int option"
  responses :: responses

definition initial_responses :: responses where
  "initial_responses =
     (\<lambda>k. JUndefined)
       (''overall_day'' := JNull,
        ''academic_focus'' := JNull,
        ''social_interactions'' := JNull,
        ''dysregulation_count'' := JNull,
        ''used_coping_strategy'' := JNull,
        ''free_response'' := JStr [])"

definition initial_state :: app_state where
  "initial_state =
     \<lparr>currentScreen = ''screen-welcome'', startTime = None, responses = initial_responses\<rparr>"

text \<open>\<open>app.flow\<close>: \<open>None\<close> is a pointer that is \<open>null\<close> or not there.\<close>

record flow_node =
  next_screen :: "string option"
  prev_screen :: "string option"

definition flow :: "string \<Rightarrow> flow_node option" where
  "flow = map_of
     [(''screen-welcome'', \<lparr>next_screen = Some ''screen-q1'', prev_screen = None\<rparr>),
      (''screen-q1'', \<lparr>next_screen = Some ''screen-q2'', prev_screen = Some ''screen-welcome''\<rparr>),
      (''screen-q2'', \<lparr>next_screen = Some ''screen-q3'', prev_screen = Some ''screen-q1''\<rparr>),
      (''screen-q3'', \<lparr>next_screen = Some ''screen-q4'', prev_screen = Some ''screen-q2''\<rparr>),
      (''screen-q4'', \<lparr>next_screen = Some ''screen-q4b'', prev_screen = Some ''screen-q3''\<rparr>),
      (''screen-q4b'', \<lparr>next_screen = Some ''screen-q5'', prev_screen = Some ''screen-q4''\<rparr>),
      (''screen-q5'', \<lparr>next_screen = Some ''screen-done'', prev_screen = Some ''screen-q4b''\<rparr>),
      (''screen-done'', \<lparr>next_screen = None, prev_screen = None\<rparr>)]"

section \<open>Local storage, the page and the outside world\<close>

text \<open>
  Local storage holds JSON text under three keys. A stored text is modelled by what
  the code can make of it: \<open>EmptyText\<close> is the empty string (falsy, so the code never
  parses it), \<open>Malformed m\<close> a text that \<open>JSON.parse\<close> rejects with a \<open>SyntaxError\<close>
  of message \<open>m\<close>, \<open>Parsed v\<close> a text that parses to \<open>v\<close>; \<open>None\<close> is a key that is not
  set. Writing \<open>JSON.stringify v\<close> stores \<open>Parsed v\<close>, and a write is taken to succeed
  (a full storage is outside the model). The page is not among the sources: a
  \<open>document\<close> says which element ids it has.
\<close>

datatype 'a blob = EmptyText | Malformed string | Parsed 'a

datatype exn = SyntaxError string | TypeError string | Error string

fun message :: "exn \<Rightarrow> string" where
  "message (SyntaxError m) = m"
| "message (TypeError m) = m"
| "message (Error m) = m"

fun JSON_parse :: "'a blob \<Rightarrow> exn + 'a" where
  "JSON_parse EmptyText = Inl (SyntaxError ''Unexpected end of JSON input'')"
| "JSON_parse (Malformed m) = Inl (SyntaxError m)"
| "JSON_parse (Parsed v) = Inr v"

text \<open>A string from \<open>getItem\<close> used as a condition: \<open>null\<close> and the empty text are falsy.\<close>

fun item_truthy :: "'a blob option \<Rightarrow> bool" where
  "item_truthy None = False"
| "item_truthy (Some EmptyText) = False"
| "item_truthy (Some b) = True"

type_synonym document = "string \<Rightarrow> bool"

record metadata =
  completion_time_seconds :: int
  device :: string

record entry =
  entry_id :: string
  date :: string
  timestamp :: string
  entry_responses :: responses
  entry_metadata :: metadata
  synced :: bool

record local_storage =
  carmel_checkin_entries :: "entry list blob option"
  carmel_checkin_config :: "(string \<Rightarrow> jsval) blob option"
  carmel_checkin_progress :: "app_state blob option"

text \<open>\<open>storage.config\<close>: only \<open>sheetsUrl\<close> ever changes; the two keys are constants.\<close>

record storage_config =
  sheetsUrl :: jsval

definition default_config :: storage_config where
  "default_config = \<lparr>sheetsUrl = JStr ''https://script.google.com/macros/s/AKfycbx0BHrK2r8X7K9NN5hW7q3wBVurCEyY9ZZWDw_gmaJH8j5162-8pohgNlbrJiDmMb30/exec''\<rparr>"

text \<open>The two modules and the storage they share.\<close>

record world =
  app :: app_state
  storage :: storage_config
  localStorage :: local_storage

definition initial_world :: "local_storage \<Rightarrow> world" where
  "initial_world ls = \<lparr>app = initial_state, storage = default_config, localStorage = ls\<rparr>"

definition empty_storage :: local_storage where
  "empty_storage =
     \<lparr>carmel_checkin_entries = None, carmel_checkin_config = None, carmel_checkin_progress = None\<rparr>"

subsection \<open>Screens and navigation\<close>

definition saveProgress :: "world \<Rightarrow> world" where
  "saveProgress w =
     w\<lparr>localStorage := (localStorage w)\<lparr>carmel_checkin_progress := Some (Parsed (app w))\<rparr>\<rparr>"

definition clearProgress :: "world \<Rightarrow> world" where
  "clearProgress w = w\<lparr>localStorage := (localStorage w)\<lparr>carmel_checkin_progress := None\<rparr>\<rparr>"

text \<open>
  \<open>showScreen\<close>: only a screen the page has becomes current; \<open>restoreSelections\<close>
  touches the page alone.
\<close>

definition showScreen :: "document \<Rightarrow> string \<Rightarrow> world \<Rightarrow> world" where
  "showScreen doc screenId w =
     (if doc screenId
      then saveProgress (w\<lparr>app := (app w)\<lparr>currentScreen := screenId\<rparr>\<rparr>)
      else w)"

text \<open>\<open>this.flow[current]?.prev\<close> and \<open>?.next\<close>.\<close>

definition flow_prev :: "string \<Rightarrow> string option" where
  "flow_prev current = (case flow current of None \<Rightarrow> None | Some n \<Rightarrow> prev_screen n)"

definition flow_next :: "string \<Rightarrow> string option" where
  "flow_next current = (case flow current of None \<Rightarrow> None | Some n \<Rightarrow> next_screen n)"

definition goBack :: "document \<Rightarrow> world \<Rightarrow> world" where
  "goBack doc w =
     (let current = currentScreen (app w);
          prevScreen = flow_prev current;
          prevScreen =
            (if current = ''screen-q5'' \<and> responses (app w) ''dysregulation_count'' = JNum 0
             then Some ''screen-q4'' else prevScreen)
      in case prevScreen of
           None \<Rightarrow> w
         | Some p \<Rightarrow> if p \<noteq> [] then showScreen doc p w else w)"

definition goNext :: "document \<Rightarrow> world \<Rightarrow> world" where
  "goNext doc w =
     (let current = currentScreen (app w);
          nextScreen = flow_next current;
          (nextScreen, w) =
            (if current = ''screen-q4'' \<and> responses (app w) ''dysregulation_count'' = JNum 0
             then (Some ''screen-q5'',
                   w\<lparr>app := (app w)\<lparr>responses :=
                     (responses (app w))(''used_coping_strategy'' := JStr ''n/a'')\<rparr>\<rparr>)
             else (nextScreen, w))
      in case nextScreen of
           None \<Rightarrow> w
         | Some n \<Rightarrow> if n \<noteq> [] then showScreen doc n w else w)"






section \<open>The persistence and sync gateway (js/storage.js)\<close>

text \<open>
  An operation that can throw returns the storage it leaves behind together with
  \<open>Inl\<close> the exception or \<open>Inr\<close> its value. The remote endpoint is a parameter: what
  \<open>fetch\<close> does with a URL and a body, \<open>None\<close> when the call resolves and \<open>Some x\<close>
  when it rejects with \<open>x\<close>. An \<open>await\<close> is modelled as a plain call: nothing else
  runs in between.
\<close>

datatype body = EntryBody entry | TestBody

type_synonym remote = "jsval \<Rightarrow> body \<Rightarrow> exn option"

record status =
  status_element :: string
  status_message :: string
  status_type :: string

definition showStatus :: "string \<Rightarrow> string \<Rightarrow> string \<Rightarrow> status" where
  "showStatus elementId msg type =
     \<lparr>status_element = elementId, status_message = msg, status_type = type\<rparr>"

definition getLocalEntries :: "local_storage \<Rightarrow> exn + entry list" where
  "getLocalEntries ls =
     (let stored = carmel_checkin_entries ls in
      case stored of
        None \<Rightarrow> Inr []
      | Some b \<Rightarrow> if item_truthy stored then JSON_parse b else Inr [])"

text \<open>\<open>updateLocalCount\<close>: the number it writes into the page, when the page has the element.\<close>

definition updateLocalCount :: "document \<Rightarrow> local_storage \<Rightarrow> exn + nat option" where
  "updateLocalCount doc ls =
     (if doc ''local-count''
      then (case getLocalEntries ls of Inl x \<Rightarrow> Inl x | Inr entries \<Rightarrow> Inr (Some (length entries)))
      else Inr None)"

definition storage_init ::
  "document \<Rightarrow> storage_config \<Rightarrow> local_storage \<Rightarrow> storage_config \<times> (exn + nat option)" where
  "storage_init doc cfg ls =
     (let savedConfig = carmel_checkin_config ls in
      case savedConfig of
        None \<Rightarrow> (cfg, updateLocalCount doc ls)
      | Some b \<Rightarrow>
          if item_truthy savedConfig
          then (case JSON_parse b of
                  Inl x \<Rightarrow> (cfg, Inl x)
                | Inr parsed \<Rightarrow>
                    (cfg\<lparr>sheetsUrl := js_or (parsed ''sheetsUrl'') (JStr [])\<rparr>,
                     updateLocalCount doc ls))
          else (cfg, updateLocalCount doc ls))"

text \<open>
  Whitespace that \<open>trim\<close> removes. A text here is a list of characters with codes
  below 256; among these \<open>String.prototype.trim\<close> strips tab, the four line and page
  breaks, the space and the no-break space.
\<close>

definition js_space :: "char \<Rightarrow> bool" where
  "js_space c =
     (c \<in> set [CHR 0x09, CHR 0x0A, CHR 0x0B, CHR 0x0C, CHR 0x0D, CHR 0x20, CHR 0xA0])"

definition trim :: "string \<Rightarrow> string" where
  "trim s = rev (dropWhile js_space (rev (dropWhile js_space s)))"

text \<open>\<open>saveConfig\<close>: \<open>urlInput\<close> is the value of the settings field, \<open>None\<close> without the field.\<close>

definition saveConfig ::
  "string option \<Rightarrow> storage_config \<Rightarrow> local_storage \<Rightarrow> storage_config \<times> local_storage \<times> status list" where
  "saveConfig urlInput cfg ls =
     (case urlInput of
        None \<Rightarrow> (cfg, ls, [])
      | Some v \<Rightarrow>
          (let cfg' = cfg\<lparr>sheetsUrl := JStr (trim v)\<rparr> in
           (cfg',
            ls\<lparr>carmel_checkin_config :=
                 Some (Parsed ((\<lambda>k. JUndefined)(''sheetsUrl'' := sheetsUrl cfg')))\<rparr>,
            [showStatus ''connection-status'' ''Configuration saved!'' ''success''])))"

definition testConnection :: "remote \<Rightarrow> storage_config \<Rightarrow> status list" where
  "testConnection fetch cfg =
     (if \<not> truthy (sheetsUrl cfg)
      then [showStatus ''connection-status'' ''Please enter an Apps Script URL first'' ''error'']
      else showStatus ''connection-status'' ''Testing connection...'' [] #
        (case fetch (sheetsUrl cfg) TestBody of
           None \<Rightarrow>
             [showStatus ''connection-status''
                ''Connection appears to work! (Note: Full verification requires checking the sheet)''
                ''success'']
         | Some x \<Rightarrow>
             [showStatus ''connection-status'' (''Connection failed: '' @ message x) ''error'']))"

definition saveLocal :: "document \<Rightarrow> local_storage \<Rightarrow> entry \<Rightarrow> local_storage \<times> (exn + bool)" where
  "saveLocal doc ls e =
     (case getLocalEntries ls of
        Inl x \<Rightarrow> (ls, Inl x)
      | Inr entries \<Rightarrow>
          (let ls' = ls\<lparr>carmel_checkin_entries := Some (Parsed (entries @ [e]))\<rparr> in
           case updateLocalCount doc ls' of
             Inl x \<Rightarrow> (ls', Inl x)
           | Inr c \<Rightarrow> (ls', Inr True)))"

definition sendToSheets :: "remote \<Rightarrow> storage_config \<Rightarrow> entry \<Rightarrow> exn + bool" where
  "sendToSheets fetch cfg e =
     (if \<not> truthy (sheetsUrl cfg) then Inl (Error ''Google Sheets URL not configured'')
      else (case fetch (sheetsUrl cfg) (EntryBody e) of
              Some x \<Rightarrow> Inl x
            | None \<Rightarrow> Inr True))"

text \<open>\<open>Array.prototype.findIndex\<close>: \<open>None\<close> is the result \<open>-1\<close>.\<close>

fun findIndex :: "('a \<Rightarrow> bool) \<Rightarrow> 'a list \<Rightarrow> nat option" where
  "findIndex P [] = None"
| "findIndex P (x # xs) = (if P x then Some 0 else map_option Suc (findIndex P xs))"

definition markAsSynced :: "local_storage \<Rightarrow> string \<Rightarrow> local_storage \<times> (exn + unit)" where
  "markAsSynced ls entryId =
     (case getLocalEntries ls of
        Inl x \<Rightarrow> (ls, Inl x)
      | Inr entries \<Rightarrow>
          (case findIndex (\<lambda>e. entry_id e = entryId) entries of
             None \<Rightarrow> (ls, Inr ())
           | Some index \<Rightarrow>
               (ls\<lparr>carmel_checkin_entries :=
                    Some (Parsed (entries[index := (entries ! index)\<lparr>synced := True\<rparr>]))\<rparr>,
                Inr ())))"

record save_result =
  success :: bool
  result_synced :: bool
  error :: "string option"

definition save ::
  "document \<Rightarrow> remote \<Rightarrow> storage_config \<Rightarrow> local_storage \<Rightarrow> entry
     \<Rightarrow> local_storage \<times> (exn + save_result)" where
  "save doc fetch cfg ls e =
     (case saveLocal doc ls e of
        (ls1, Inl x) \<Rightarrow> (ls1, Inl x)
      | (ls1, Inr ok) \<Rightarrow>
          if truthy (sheetsUrl cfg)
          then (case sendToSheets fetch cfg e of
                  Inl x \<Rightarrow>
                    (ls1, Inr \<lparr>success = True, result_synced = False, error = Some (message x)\<rparr>)
                | Inr sent \<Rightarrow>
                    (case markAsSynced ls1 (entry_id e) of
                       (ls2, Inl x) \<Rightarrow>
                         (ls2, Inr \<lparr>success = True, result_synced = False,
                                    error = Some (message x)\<rparr>)
                     | (ls2, Inr u) \<Rightarrow>
                         (ls2, Inr \<lparr>success = True, result_synced = True, error = None\<rparr>)))
          else (ls1, Inr \<lparr>success = True, result_synced = False, error = None\<rparr>))"

text \<open>
  The loop of \<open>syncAll\<close> over the unsynced entries, with the storage and the two
  counters \<open>synced\<close> and \<open>failed\<close>; the pause between two requests is not modelled.
\<close>

fun sync_loop ::
  "remote \<Rightarrow> storage_config \<Rightarrow> entry list \<Rightarrow> local_storage \<times> nat \<times> nat
     \<Rightarrow> local_storage \<times> nat \<times> nat" where
  "sync_loop fetch cfg [] acc = acc"
| "sync_loop fetch cfg (e # es) (ls, n_synced, n_failed) =
     (case sendToSheets fetch cfg e of
        Inl x \<Rightarrow> sync_loop fetch cfg es (ls, n_synced, n_failed + 1)
      | Inr sent \<Rightarrow>
          (case markAsSynced ls (entry_id e) of
             (ls', Inl x) \<Rightarrow> sync_loop fetch cfg es (ls', n_synced, n_failed + 1)
           | (ls', Inr u) \<Rightarrow> sync_loop fetch cfg es (ls', n_synced + 1, n_failed)))"

definition syncAll ::
  "remote \<Rightarrow> storage_config \<Rightarrow> local_storage \<Rightarrow> local_storage \<times> (exn + status list)" where
  "syncAll fetch cfg ls =
     (if \<not> truthy (sheetsUrl cfg)
      then (ls, Inr [showStatus ''sync-status'' ''Please configure Google Sheets URL first'' ''error''])
      else (case getLocalEntries ls of
              Inl x \<Rightarrow> (ls, Inl x)
            | Inr entries \<Rightarrow>
                (let unsynced = filter (\<lambda>e. \<not> synced e) entries in
                 if length unsynced = 0
                 then (ls, Inr [showStatus ''sync-status'' ''All entries already synced!'' ''success''])
                 else (case sync_loop fetch cfg unsynced (ls, 0, 0) of
                         (ls', n_synced, n_failed) \<Rightarrow>
                           (ls', Inr
                             [showStatus ''sync-status''
                                (''Syncing '' @ show_nat (length unsynced) @ '' entries...'') [],
                              if n_failed = 0
                              then showStatus ''sync-status''
                                     (''Successfully synced '' @ show_nat n_synced @ '' entries!'')
                                     ''success''
                              else showStatus ''sync-status''
                                     (''Synced '' @ show_nat n_synced @ '' entries, '' @
                                      show_nat n_failed @ '' failed'')
                                     ''error''])))))"

subsection \<open>Export and wipe\<close>

text \<open>
  The two label tables are object literals, so a lookup by a name they do not hold
  falls through to \<open>Object.prototype\<close>: \<open>proto\<close> gives the inherited value for a
  name (\<open>JUndefined\<close> when there is none).
\<close>

definition social_labels :: "(string \<times> string) list" where
  "social_labels =
     [(''yes_several'', ''Yes, several good moments''),
      (''yes_one'', ''Yes, at least one''),
      (''not_really'', ''Not really, but okay''),
      (''no_wished'', ''No, and wished I had'')]"

definition coping_labels :: "(string \<times> string) list" where
  "coping_labels =
     [(''yes_helped'', ''Yes, and it helped''),
      (''yes_not_much'', ''Yes, but not much''),
      (''no'', ''No''),
      (''n/a'', ''N/A (no dysregulation)'')]"

definition lookup :: "(string \<Rightarrow> jsval) \<Rightarrow> (string \<times> string) list \<Rightarrow> jsval \<Rightarrow> jsval" where
  "lookup proto table v =
     (case map_of table (js_string v) of
        Some label \<Rightarrow> JStr label
      | None \<Rightarrow> proto (js_string v))"

definition formatSocialResponse :: "(string \<Rightarrow> jsval) \<Rightarrow> jsval \<Rightarrow> jsval" where
  "formatSocialResponse proto v = js_or (js_or (lookup proto social_labels v) v) (JStr [])"

definition formatCopingResponse :: "(string \<Rightarrow> jsval) \<Rightarrow> jsval \<Rightarrow> jsval" where
  "formatCopingResponse proto v = js_or (js_or (lookup proto coping_labels v) v) (JStr [])"

text \<open>\<open>s.replace(/"/g, '""')\<close>.\<close>

definition double_quotes :: "string \<Rightarrow> string" where
  "double_quotes s = concat (map (\<lambda>c. if c = CHR 0x22 then [CHR 0x22, CHR 0x22] else [c]) s)"

definition headers :: "string list" where
  "headers =
     [''Date'', ''Time'', ''Overall Day (1-5)'', ''Academic Focus (1-5)'', ''Social Interactions'',
      ''Dysregulation Count'', ''Coping Strategy Used'', ''Notes'', ''Synced'']"

text \<open>
  One row of the export. Only a string has \<open>replace\<close>: a free response that is
  truthy and not a string makes the row throw.
\<close>

definition csv_row :: "(string \<Rightarrow> jsval) \<Rightarrow> entry \<Rightarrow> exn + jsval list" where
  "csv_row proto e =
     (case js_or (entry_responses e ''free_response'') (JStr []) of
        JStr s \<Rightarrow>
          Inr [JStr (date e),
               JStr (timestamp e),
               entry_responses e ''overall_day'',
               entry_responses e ''academic_focus'',
               formatSocialResponse proto (entry_responses e ''social_interactions''),
               entry_responses e ''dysregulation_count'',
               formatCopingResponse proto (entry_responses e ''used_coping_strategy''),
               JStr ([CHR 0x22] @ double_quotes s @ [CHR 0x22]),
               JStr (if synced e then ''Yes'' else ''No'')]
      | other \<Rightarrow> Inl (TypeError ''replace is not a function''))"

fun csv_rows :: "(string \<Rightarrow> jsval) \<Rightarrow> entry list \<Rightarrow> exn + jsval list list" where
  "csv_rows proto [] = Inr []"
| "csv_rows proto (e # es) =
     (case csv_row proto e of
        Inl x \<Rightarrow> Inl x
      | Inr r \<Rightarrow> (case csv_rows proto es of Inl x \<Rightarrow> Inl x | Inr rs \<Rightarrow> Inr (r # rs)))"

text \<open>\<open>new Date().toISOString().split('T')[0]\<close>, from the ISO text of the clock.\<close>

definition getDateString :: "string \<Rightarrow> string" where
  "getDateString isoText = takeWhile (\<lambda>c. c \<noteq> CHR ''T'') isoText"

datatype export = Alert string | Download string string string

definition exportCSV :: "(string \<Rightarrow> jsval) \<Rightarrow> string \<Rightarrow> local_storage \<Rightarrow> exn + export" where
  "exportCSV proto isoText ls =
     (case getLocalEntries ls of
        Inl x \<Rightarrow> Inl x
      | Inr entries \<Rightarrow>
          if length entries = 0 then Inr (Alert ''No entries to export'')
          else (case csv_rows proto entries of
                  Inl x \<Rightarrow> Inl x
                | Inr rows \<Rightarrow>
                    (let csvContent =
                           join [CHR 0x0A]
                             (map JStr (join '','' (map JStr headers) # map (join '','') rows))
                     in Inr (Download csvContent
                               (''carmel-checkin-'' @ getDateString isoText @ ''.csv'')
                               ''text/csv''))))"

text \<open>\<open>exportJSON\<close>: \<open>stringify\<close> stands for \<open>JSON.stringify(entries, null, 2)\<close>.\<close>

definition exportJSON :: "(entry list \<Rightarrow> string) \<Rightarrow> string \<Rightarrow> local_storage \<Rightarrow> exn + export" where
  "exportJSON stringify isoText ls =
     (case getLocalEntries ls of
        Inl x \<Rightarrow> Inl x
      | Inr entries \<Rightarrow>
          if length entries = 0 then Inr (Alert ''No entries to export'')
          else Inr (Download (stringify entries)
                      (''carmel-checkin-'' @ getDateString isoText @ ''.json'')
                      ''application/json''))"

text \<open>\<open>clearLocal\<close>: \<open>confirmed\<close> is the user's answer to the confirmation dialog.\<close>

definition clearLocal ::
  "document \<Rightarrow> bool \<Rightarrow> local_storage \<Rightarrow> local_storage \<times> (exn + status list)" where
  "clearLocal doc confirmed ls =
     (if confirmed
      then (let ls' = ls\<lparr>carmel_checkin_entries := None\<rparr> in
            case updateLocalCount doc ls' of
              Inl x \<Rightarrow> (ls', Inl x)
            | Inr c \<Rightarrow> (ls', Inr [showStatus ''sync-status'' ''Local data cleared'' ''success'']))
      else (ls, Inr []))"

text \<open>
  The operations of the gateway, each with what it takes from the page, the user
  and the clock, and the configuration and storage each leaves behind. An operation
  that writes neither (a read, an export, a request) leaves both as they are.
\<close>

datatype gateway_op =
    OpInit
  | OpSaveConfig "string option"
  | OpTestConnection
  | OpSaveLocal entry
  | OpGetLocalEntries
  | OpUpdateLocalCount
  | OpSave entry
  | OpSendToSheets entry
  | OpMarkAsSynced string
  | OpSyncAll
  | OpExportCSV "string \<Rightarrow> jsval" string
  | OpExportJSON "entry list \<Rightarrow> string" string
  | OpClearLocal bool

fun gateway_run ::
  "document \<Rightarrow> remote \<Rightarrow> gateway_op \<Rightarrow> storage_config \<times> local_storage
     \<Rightarrow> storage_config \<times> local_storage" where
  "gateway_run doc fetch OpInit (cfg, ls) = (fst (storage_init doc cfg ls), ls)"
| "gateway_run doc fetch (OpSaveConfig urlInput) (cfg, ls) =
     (case saveConfig urlInput cfg ls of (cfg', ls', shown) \<Rightarrow> (cfg', ls'))"
| "gateway_run doc fetch OpTestConnection (cfg, ls) = (cfg, ls)"
| "gateway_run doc fetch (OpSaveLocal e) (cfg, ls) = (cfg, fst (saveLocal doc ls e))"
| "gateway_run doc fetch OpGetLocalEntries (cfg, ls) = (cfg, ls)"
| "gateway_run doc fetch OpUpdateLocalCount (cfg, ls) = (cfg, ls)"
| "gateway_run doc fetch (OpSave e) (cfg, ls) = (cfg, fst (save doc fetch cfg ls e))"
| "gateway_run doc fetch (OpSendToSheets e) (cfg, ls) = (cfg, ls)"
| "gateway_run doc fetch (OpMarkAsSynced entryId) (cfg, ls) = (cfg, fst (markAsSynced ls entryId))"
| "gateway_run doc fetch OpSyncAll (cfg, ls) = (cfg, fst (syncAll fetch cfg ls))"
| "gateway_run doc fetch (OpExportCSV proto isoText) (cfg, ls) = (cfg, ls)"
| "gateway_run doc fetch (OpExportJSON stringify isoText) (cfg, ls) = (cfg, ls)"
| "gateway_run doc fetch (OpClearLocal confirmed) (cfg, ls) = (cfg, fst (clearLocal doc confirmed ls))"

text \<open>
  What may happen to the entries between two states of the store: \<open>same_but_synced\<close>
  relates an entry to one that differs from it at most by a sync flag that went from
  false to true.
\<close>

definition same_but_synced :: "entry \<Rightarrow> entry \<Rightarrow> bool" where
  "same_but_synced old new = (new = old \<or> (\<not> synced old \<and> new = old\<lparr>synced := True\<rparr>))"

section \<open>Submission and resume (js/app.js)\<close>

text \<open>
  What one call of \<open>submit\<close> reads from outside: \<open>Date.now()\<close> at its start and again
  inside \<open>generateId\<close>, the text of \<open>Math.random().toString(36)\<close>, the ISO texts of
  the two \<open>new Date()\<close>, and the outcome of the two tests on the user agent.
\<close>

record env =
  now :: int
  id_now :: int
  random36 :: string
  date_iso :: string
  timestamp_iso :: string
  ua_tablet :: bool
  ua_mobile :: bool

definition generateId :: "env \<Rightarrow> string" where
  "generateId ev = ''entry_'' @ show_int (id_now ev) @ ''_'' @ take 9 (drop 2 (random36 ev))"

definition getDeviceType :: "env \<Rightarrow> string" where
  "getDeviceType ev =
     (if ua_tablet ev then ''tablet'' else if ua_mobile ev then ''mobile'' else ''desktop'')"

text \<open>\<open>Math.round(d / 1000)\<close> for an integer \<open>d\<close>: halves round up.\<close>

definition round_seconds :: "int \<Rightarrow> int" where
  "round_seconds d = (d + 500) div 1000"

definition new_entry :: "env \<Rightarrow> app_state \<Rightarrow> entry" where
  "new_entry ev st =
     (let endTime = now ev;
          completionTime =
            round_seconds (endTime - (case startTime st of None \<Rightarrow> 0 | Some t \<Rightarrow> t))
      in \<lparr>entry_id = generateId ev,
          date = getDateString (date_iso ev),
          timestamp = timestamp_iso ev,
          entry_responses = responses st,
          entry_metadata =
            \<lparr>completion_time_seconds = completionTime, device = getDeviceType ev\<rparr>,
          synced = False\<rparr>)"

text \<open>
  \<open>submit\<close>, run to its end with nothing in between: the summary it writes goes to
  the page alone. The second component is the exception that rejects the call, if any.
\<close>

definition submit :: "document \<Rightarrow> remote \<Rightarrow> env \<Rightarrow> world \<Rightarrow> world \<times> exn option" where
  "submit doc fetch ev w =
     (let e = new_entry ev (app w) in
      case save doc fetch (storage w) (localStorage w) e of
        (ls', Inl x) \<Rightarrow> (w\<lparr>localStorage := ls'\<rparr>, Some x)
      | (ls', Inr result) \<Rightarrow>
          (clearProgress (showScreen doc ''screen-done'' (w\<lparr>localStorage := ls'\<rparr>)), None))"

text \<open>\<open>textarea\<close> is the text of the free-response field, \<open>None\<close> without the field.\<close>

definition submitFreeResponse ::
  "document \<Rightarrow> remote \<Rightarrow> env \<Rightarrow> string option \<Rightarrow> world \<Rightarrow> world \<times> exn option" where
  "submitFreeResponse doc fetch ev textarea w =
     (case textarea of
        None \<Rightarrow> (w, Some (TypeError ''textarea is null''))
      | Some v \<Rightarrow>
          submit doc fetch ev
            (w\<lparr>app := (app w)\<lparr>responses :=
                 (responses (app w))(''free_response'' := JStr (trim v))\<rparr>\<rparr>))"

text \<open>The key handler that \<open>app.init\<close> installs.\<close>

definition keydown ::
  "document \<Rightarrow> remote \<Rightarrow> env \<Rightarrow> string option \<Rightarrow> string \<Rightarrow> world \<Rightarrow> world \<times> exn option" where
  "keydown doc fetch ev textarea key w =
     (if key = ''Enter'' \<and> currentScreen (app w) = ''screen-q5''
      then submitFreeResponse doc fetch ev textarea w
      else (w, None))"

subsection \<open>A submission in the event loop\<close>

text \<open>
  \<open>submit\<close> above is the submission with nothing running before its request settles.
  In the event loop the call is suspended at \<open>await storage.save(entry)\<close>: with an
  endpoint configured, \<open>save\<close> has written the entry locally and started the request,
  and other handlers run until the request settles. \<open>submit_begin\<close> is the part up to
  there; \<open>Waiting e outcome\<close> says that the request for \<open>e\<close> is in flight and will
  resolve (\<open>None\<close>) or reject. With no endpoint nothing is awaited from outside and the
  submission finishes at once. \<open>submit_settle\<close> is the rest, run on the state of that
  later moment: the sync mark when the request resolved, then the done screen and
  the removal of the saved session.
\<close>

datatype submission = Rejected exn | Finished | Waiting entry "exn option"

definition submit_done :: "document \<Rightarrow> world \<Rightarrow> world" where
  "submit_done doc w = clearProgress (showScreen doc ''screen-done'' w)"

definition submit_begin :: "document \<Rightarrow> remote \<Rightarrow> env \<Rightarrow> world \<Rightarrow> world \<times> submission" where
  "submit_begin doc fetch ev w =
     (let e = new_entry ev (app w) in
      case saveLocal doc (localStorage w) e of
        (ls1, Inl x) \<Rightarrow> (w\<lparr>localStorage := ls1\<rparr>, Rejected x)
      | (ls1, Inr ok) \<Rightarrow>
          if truthy (sheetsUrl (storage w))
          then (w\<lparr>localStorage := ls1\<rparr>,
                Waiting e (fetch (sheetsUrl (storage w)) (EntryBody e)))
          else (submit_done doc (w\<lparr>localStorage := ls1\<rparr>), Finished))"

definition submit_settle :: "document \<Rightarrow> entry \<Rightarrow> exn option \<Rightarrow> world \<Rightarrow> world" where
  "submit_settle doc e outcome w =
     (case outcome of
        Some x \<Rightarrow> submit_done doc w
      | None \<Rightarrow>
          submit_done doc
            (w\<lparr>localStorage := fst (markAsSynced (localStorage w) (entry_id e))\<rparr>))"

text \<open>
  \<open>loadProgress\<close>, with the clock and the user's answer to the resume dialog. The
  second component says whether the dialog was shown. A stored session has the three
  fields \<open>saveProgress\<close> writes, so the merge into the state replaces all three.
\<close>

definition loadProgress :: "document \<Rightarrow> int \<Rightarrow> bool \<Rightarrow> world \<Rightarrow> world \<times> bool" where
  "loadProgress doc clock confirmed w =
     (let saved = carmel_checkin_progress (localStorage w) in
      case saved of
        None \<Rightarrow> (w, False)
      | Some b \<Rightarrow>
          if item_truthy saved
          then (case JSON_parse b of
                  Inl x \<Rightarrow> (clearProgress w, False)
                | Inr progress \<Rightarrow>
                    (case startTime progress of
                       None \<Rightarrow> (clearProgress w, False)
                     | Some t \<Rightarrow>
                         if t \<noteq> 0 \<and> clock - t < 3600000
                         then (let w1 = w\<lparr>app := progress\<rparr> in
                               if currentScreen progress \<noteq> [] \<and>
                                  currentScreen progress \<noteq> ''screen-welcome''
                               then (if confirmed
                                     then (showScreen doc (currentScreen progress) w1, True)
                                     else (clearProgress w1, True))
                               else (w1, False))
                         else (clearProgress w, False)))
          else (w, False))"

text \<open>
  The list \<open>markAsSynced\<close> leaves in the store, and the last message of \<open>syncAll\<close>
  for given counts.
\<close>

definition mark_synced :: "string \<Rightarrow> entry list \<Rightarrow> entry list" where
  "mark_synced i es =
     (case findIndex (\<lambda>e. entry_id e = i) es of
        None \<Rightarrow> es
      | Some k \<Rightarrow> es[k := (es ! k)\<lparr>synced := True\<rparr>])"


section \<open>Runs of the controller\<close>

datatype nav = Next | Back

definition navigate :: "document \<Rightarrow> nav \<Rightarrow> world \<Rightarrow> world" where
  "navigate doc n w = (case n of Next \<Rightarrow> goNext doc w | Back \<Rightarrow> goBack doc w)"

definition navigate_all :: "document \<Rightarrow> nav list \<Rightarrow> world \<Rightarrow> world" where
  "navigate_all doc ns w = foldl (\<lambda>w n. navigate doc n w) w ns"












section \<open>The transition table as the specification words it\<close>

datatype screen = Welcome | Q1 | Q2 | Q3 | Q4 | Q4b | Q5 | Done

fun screen_id :: "screen \<Rightarrow> string" where
  "screen_id Welcome = ''screen-welcome''"
| "screen_id Q1 = ''screen-q1''"
| "screen_id Q2 = ''screen-q2''"
| "screen_id Q3 = ''screen-q3''"
| "screen_id Q4 = ''screen-q4''"
| "screen_id Q4b = ''screen-q4b''"
| "screen_id Q5 = ''screen-q5''"
| "screen_id Done = ''screen-done''"

text \<open>
  The chain welcome, q1, q2, q3, q4, q4b, q5, done; \<open>zero\<close> says that the
  dysregulation count is 0, and then q4b is skipped. The chain ends at done.
\<close>

fun chain_next :: "bool \<Rightarrow> screen \<Rightarrow> screen" where
  "chain_next zero Welcome = Q1"
| "chain_next zero Q1 = Q2"
| "chain_next zero Q2 = Q3"
| "chain_next zero Q3 = Q4"
| "chain_next zero Q4 = (if zero then Q5 else Q4b)"
| "chain_next zero Q4b = Q5"
| "chain_next zero Q5 = Done"
| "chain_next zero Done = Done"

text \<open>The symmetric pointers back: every step of the chain, reversed.\<close>

fun chain_prev :: "bool \<Rightarrow> screen \<Rightarrow> screen" where
  "chain_prev zero Welcome = Welcome"
| "chain_prev zero Q1 = Welcome"
| "chain_prev zero Q2 = Q1"
| "chain_prev zero Q3 = Q2"
| "chain_prev zero Q4 = Q3"
| "chain_prev zero Q4b = Q4"
| "chain_prev zero Q5 = (if zero then Q4 else Q4b)"
| "chain_prev zero Done = Q5"

definition chain_step :: "bool \<Rightarrow> screen \<Rightarrow> nav \<Rightarrow> screen" where
  "chain_step zero s n = (case n of Next \<Rightarrow> chain_next zero s | Back \<Rightarrow> chain_prev zero s)"

text \<open>The pointers back as \<open>app.flow\<close> has them: none out of done.\<close>

definition table_prev :: "bool \<Rightarrow> screen \<Rightarrow> screen" where
  "table_prev zero s = (if s = Done then Done else chain_prev zero s)"

definition table_step :: "bool \<Rightarrow> screen \<Rightarrow> nav \<Rightarrow> screen" where
  "table_step zero s n = (case n of Next \<Rightarrow> chain_next zero s | Back \<Rightarrow> table_prev zero s)"

text \<open>A page with every element, and what it is for a page to have the eight screens.\<close>

definition full_page :: document where
  "full_page = (\<lambda>i. True)"

definition has_screens :: "document \<Rightarrow> bool" where
  "has_screens doc = list_all (\<lambda>s. doc (screen_id s)) [Welcome, Q1, Q2, Q3, Q4, Q4b, Q5, Done]"

section \<open>Example states\<close>

definition zero_count_world :: world where
  "zero_count_world =
     \<lparr>app = initial_state
              \<lparr>responses := initial_responses(''dysregulation_count'' := JNum 0)\<rparr>,
      storage = default_config, localStorage = empty_storage\<rparr>"

definition q4_world :: world where
  "q4_world =
     \<lparr>app = \<lparr>currentScreen = ''screen-q4'', startTime = Some 1, responses = initial_responses\<rparr>,
      storage = default_config, localStorage = empty_storage\<rparr>"

definition q5_world :: world where
  "q5_world =
     \<lparr>app = \<lparr>currentScreen = ''screen-q5'', startTime = Some 1,
              responses = initial_responses(''dysregulation_count'' := JNum 0,
                                            ''used_coping_strategy'' := JStr ''n/a'')\<rparr>,
      storage = default_config, localStorage = empty_storage\<rparr>"

text \<open>A remote endpoint that takes every request.\<close>

definition no_remote :: remote where
  "no_remote = (\<lambda>url b. None)"

definition sample_entry :: entry where
  "sample_entry =
     \<lparr>entry_id = ''entry_1700000000000_k3j9x0q2a'',
      date = ''2023-11-14'',
      timestamp = ''2023-11-14T22:13:20.000Z'',
      entry_responses =
        (\<lambda>k. JUndefined)
          (''overall_day'' := JNum 4,
           ''academic_focus'' := JNum 3,
           ''social_interactions'' := JStr ''yes_one'',
           ''dysregulation_count'' := JNum 0,
           ''used_coping_strategy'' := JStr ''n/a'',
           ''free_response'' := JStr ''fine''),
      entry_metadata = \<lparr>completion_time_seconds = 42, device = ''desktop''\<rparr>,
      synced = False\<rparr>"

definition second_entry :: entry where
  "second_entry = sample_entry\<lparr>entry_id := ''entry_1700000086400_zz81hd0pq''\<rparr>"

definition two_entry_storage :: local_storage where
  "two_entry_storage =
     empty_storage\<lparr>carmel_checkin_entries := Some (Parsed [sample_entry, second_entry])\<rparr>"




definition sample_env :: env where
  "sample_env =
     \<lparr>now = 1700000000000, id_now = 1700000000000, random36 = ''0.k3j9x0q2a7f'',
      date_iso = ''2023-11-14T22:13:20.000Z'', timestamp_iso = ''2023-11-14T22:13:20.000Z'',
      ua_tablet = False, ua_mobile = False\<rparr>"

definition saved_session :: "int \<Rightarrow> app_state" where
  "saved_session t =
     \<lparr>currentScreen = ''screen-q3'', startTime = Some t,
      responses = initial_responses(''overall_day'' := JNum 4, ''academic_focus'' := JNum 3)\<rparr>"

definition session_world :: "int \<Rightarrow> world" where
  "session_world t =
     initial_world (empty_storage\<lparr>carmel_checkin_progress := Some (Parsed (saved_session t))\<rparr>)"

definition later_env :: env where
  "later_env = sample_env\<lparr>now := 1700000086400, id_now := 1700000086400\<rparr>"

definition one_entry_world :: world where
  "one_entry_world =
     q4_world\<lparr>localStorage :=
       empty_storage\<lparr>carmel_checkin_entries :=
         Some (Parsed [sample_entry\<lparr>entry_id := generateId sample_env\<rparr>])\<rparr>\<rparr>"

definition no_proto :: "string \<Rightarrow> jsval" where
  "no_proto = (\<lambda>k. JUndefined)"

definition one_entry_storage :: local_storage where
  "one_entry_storage = empty_storage\<lparr>carmel_checkin_entries := Some (Parsed [sample_entry])\<rparr>"

definition quoting_entry :: entry where
  "quoting_entry =
     sample_entry
       \<lparr>entry_responses :=
          (entry_responses sample_entry)
            (''free_response'' := JStr (''said '' @ [CHR 0x22] @ ''no'' @ [CHR 0x22]),
             ''dysregulation_count'' := JNum 2,
             ''used_coping_strategy'' := JStr ''yes_helped''),
        synced := True\<rparr>"

definition quoting_storage :: local_storage where
  "quoting_storage = empty_storage\<lparr>carmel_checkin_entries := Some (Parsed [quoting_entry])\<rparr>"




section \<open>Navigation\<close>

lemma has_screens_iff:
  "has_screens doc \<longleftrightarrow>
     doc ''screen-welcome'' \<and> doc ''screen-q1'' \<and> doc ''screen-q2'' \<and> doc ''screen-q3'' \<and>
     doc ''screen-q4'' \<and> doc ''screen-q4b'' \<and> doc ''screen-q5'' \<and> doc ''screen-done''"
  by (simp add: has_screens_def)

lemma showScreen_current:
  "currentScreen (app (showScreen doc i w)) = (if doc i then i else currentScreen (app w))"
  by (simp add: showScreen_def saveProgress_def)

lemma showScreen_responses: "responses (app (showScreen doc i w)) = responses (app w)"
  by (simp add: showScreen_def saveProgress_def)

lemma goNext_count:
  "responses (app (goNext doc w)) ''dysregulation_count'' = responses (app w) ''dysregulation_count''"
  by (simp add: goNext_def Let_def showScreen_responses split: option.split)

lemma goBack_count:
  "responses (app (goBack doc w)) ''dysregulation_count'' = responses (app w) ''dysregulation_count''"
  by (simp add: goBack_def Let_def showScreen_responses split: option.split)

lemma goNext_screen:
  assumes "has_screens doc" and "currentScreen (app w) = screen_id s"
  shows "currentScreen (app (goNext doc w)) =
           screen_id (chain_next (responses (app w) ''dysregulation_count'' = JNum 0) s)"
  using assms
  by (cases s) (simp_all add: goNext_def Let_def showScreen_current flow_next_def flow_def has_screens_iff)

lemma goBack_screen:
  assumes "has_screens doc" and "currentScreen (app w) = screen_id s"
  shows "currentScreen (app (goBack doc w)) =
           screen_id (table_prev (responses (app w) ''dysregulation_count'' = JNum 0) s)"
  using assms 
  by (cases s) (simp_all add: goBack_def Let_def showScreen_current flow_prev_def flow_def has_screens_iff table_prev_def)

lemma navigate_screen:
  assumes "has_screens doc" and "currentScreen (app w) = screen_id s"
  shows "currentScreen (app (navigate doc n w)) =
           screen_id (table_step (responses (app w) ''dysregulation_count'' = JNum 0) s n)"
  using goNext_screen [OF assms] goBack_screen [OF assms]
  by (cases n) (simp_all add: navigate_def table_step_def)

lemma navigate_count:
  "responses (app (navigate doc n w)) ''dysregulation_count'' = responses (app w) ''dysregulation_count''"
  by (cases n) (simp_all add: navigate_def goNext_count goBack_count)

lemma navigate_all_screen:
  assumes "has_screens doc" and "currentScreen (app w) = screen_id s"
  shows "currentScreen (app (navigate_all doc ns w)) =
           screen_id (foldl (table_step (responses (app w) ''dysregulation_count'' = JNum 0)) s ns)"
  using assms(2)
proof (induction ns arbitrary: w s)
  case Nil
  then show ?case by (simp add: navigate_all_def)
next
  case (Cons n ns)
  have "currentScreen (app (navigate doc n w)) =
          screen_id (table_step (responses (app w) ''dysregulation_count'' = JNum 0) s n)"
    by (rule navigate_screen [OF assms(1) Cons.prems])
  from Cons.IH [OF this] show ?case
    by (simp add: navigate_all_def navigate_count)
qed

lemma navigate_all_count:
  "responses (app (navigate_all doc ns w)) ''dysregulation_count'' =
     responses (app w) ''dysregulation_count''"
  unfolding navigate_all_def
  by (induction ns arbitrary: w) (simp_all add: navigate_count)

text \<open>
  Claim C1, as amended. On a page that has the eight screens, every sequence of
  \<open>goNext\<close> and \<open>goBack\<close> from welcome moves along the chain welcome, q1, q2, q3, q4,
  q4b, q5, done and its pointers back, with q4b skipped in both directions when the
  dysregulation count is 0; done has no pointer back, so \<open>goBack\<close> on done stays there.
  Neither operation changes the count.
\<close>

theorem navigation_follows_flow_table:
  assumes "has_screens doc" and "currentScreen (app w) = screen_id Welcome"
  shows "currentScreen (app (navigate_all doc ns w)) =
           screen_id (foldl (table_step (responses (app w) ''dysregulation_count'' = JNum 0))
                        Welcome ns) \<and>
         responses (app (navigate_all doc ns w)) ''dysregulation_count'' =
           responses (app w) ''dysregulation_count''"
  using navigate_all_screen [OF assms, of ns] navigate_all_count [of doc ns w] by simp

theorem navigation_follows_flow_table_witness:
  "has_screens full_page \<and>
   currentScreen (app zero_count_world) = screen_id Welcome \<and>
   currentScreen (app (navigate_all full_page [Next, Next, Next, Next, Next, Back] zero_count_world))
     = ''screen-q4''"
proof -
  have h1: "has_screens full_page"
    by (simp add: has_screens_def full_page_def)
  have h2: "currentScreen (app zero_count_world) = screen_id Welcome"
    by (simp add: zero_count_world_def initial_state_def)
  have z: "responses (app zero_count_world) ''dysregulation_count'' = JNum 0"
    by (simp add: zero_count_world_def)
  show ?thesis
    using h1 h2 navigation_follows_flow_table [OF h1 h2, of "[Next, Next, Next, Next, Next, Back]"]
    by (simp add: z table_step_def table_prev_def)
qed

text \<open>
  With pointers back that mirror every step of the chain, \<open>goBack\<close> on done would show
  q5; the code stays on done.
\<close>

theorem back_from_done_counterexample:
  "currentScreen
     (app (navigate_all full_page [Next, Next, Next, Next, Next, Next, Next, Back]
             (initial_world empty_storage))) = ''screen-done'' \<and>
   screen_id
     (foldl (chain_step (responses (app (initial_world empty_storage)) ''dysregulation_count'' = JNum 0))
        Welcome [Next, Next, Next, Next, Next, Next, Next, Back]) = ''screen-q5''"
  by (simp add: navigate_all_def navigate_def goNext_def goBack_def showScreen_def saveProgress_def
      flow_next_def flow_prev_def flow_def full_page_def initial_world_def initial_state_def
      initial_responses_def chain_step_def Let_def)

section \<open>The store under the gateway's operations\<close>

lemma getLocalEntries_cong:
  "carmel_checkin_entries ls = carmel_checkin_entries ls' \<Longrightarrow> getLocalEntries ls = getLocalEntries ls'"
  by (simp add: getLocalEntries_def)

lemma findIndex_None: "findIndex P xs = None \<longleftrightarrow> (\<forall>x\<in>set xs. \<not> P x)"
  by (induction xs) auto

lemma findIndex_Some:
  "findIndex P xs = Some k \<Longrightarrow> k < length xs \<and> P (xs ! k) \<and> (\<forall>j<k. \<not> P (xs ! j))"
proof (induction xs arbitrary: k)
  case Nil
  then show ?case by simp
next
  case (Cons x xs)
  show ?case
  proof (cases "P x")
    case True
    with Cons.prems show ?thesis by simp
  next
    case False
    with Cons.prems obtain k' where k': "findIndex P xs = Some k'" "k = Suc k'"
      by auto
    from Cons.IH [OF k'(1)] False k'(2) show ?thesis
      by (auto simp add: nth_Cons split: nat.split)
  qed
qed

lemma findIndex_append_fresh:
  "\<forall>y\<in>set xs. \<not> P y \<Longrightarrow> P x \<Longrightarrow> findIndex P (xs @ [x]) = Some (length xs)"
  by (induction xs) auto

lemma getLocalEntries_Parsed [simp]:
  "getLocalEntries (ls\<lparr>carmel_checkin_entries := Some (Parsed es)\<rparr>) = Inr es"
  by (simp add: getLocalEntries_def)

lemma getLocalEntries_cleared [simp]:
  "getLocalEntries (ls\<lparr>carmel_checkin_entries := None\<rparr>) = Inr []"
  by (simp add: getLocalEntries_def)

lemma saveLocal_Parsed:
  "getLocalEntries ls = Inr es \<Longrightarrow>
     saveLocal doc ls e = (ls\<lparr>carmel_checkin_entries := Some (Parsed (es @ [e]))\<rparr>, Inr True)"
  by (simp add: saveLocal_def updateLocalCount_def Let_def)

lemma markAsSynced_Parsed:
  assumes "getLocalEntries ls = Inr es"
  shows "snd (markAsSynced ls i) = Inr () \<and>
         getLocalEntries (fst (markAsSynced ls i)) = Inr (mark_synced i es) \<and>
         (fst (markAsSynced ls i) = ls \<or>
          fst (markAsSynced ls i) = ls\<lparr>carmel_checkin_entries := Some (Parsed (mark_synced i es))\<rparr>)"
  using assms by (simp add: markAsSynced_def mark_synced_def split: option.split)

lemma same_but_synced_refl [simp]: "same_but_synced e e"
  by (simp add: same_but_synced_def)

lemma same_but_synced_mark [simp]: "same_but_synced e (e\<lparr>synced := True\<rparr>)"
  by (cases "synced e") (simp_all add: same_but_synced_def)

lemma same_but_synced_trans:
  "same_but_synced a b \<Longrightarrow> same_but_synced b c \<Longrightarrow> same_but_synced a c"
  by (auto simp add: same_but_synced_def)

lemma same_but_synced_id: "same_but_synced a b \<Longrightarrow> entry_id b = entry_id a"
  by (auto simp add: same_but_synced_def)

lemma mark_synced_length [simp]: "length (mark_synced i es) = length es"
  by (simp add: mark_synced_def split: option.split)

lemma mark_synced_nth:
  assumes "k < length es"
  shows "mark_synced i es ! k = es ! k \<or>
         (entry_id (es ! k) = i \<and> (\<forall>j<k. entry_id (es ! j) \<noteq> i) \<and>
          mark_synced i es ! k = (es ! k)\<lparr>synced := True\<rparr>)"
proof (cases "findIndex (\<lambda>e. entry_id e = i) es")
  case None
  then show ?thesis by (simp add: mark_synced_def)
next
  case (Some m)
  from findIndex_Some [OF Some] assms Some show ?thesis
    by (cases "k = m") (simp_all add: mark_synced_def)
qed

lemma mark_synced_frame: "list_all2 same_but_synced es (mark_synced i es)"
proof -
  have "\<forall>k<length es. same_but_synced (es ! k) (mark_synced i es ! k)"
  proof (intro allI impI)
    fix k assume "k < length es"
    from mark_synced_nth [OF this, of i] show "same_but_synced (es ! k) (mark_synced i es ! k)"
      by auto
  qed
  then show ?thesis by (simp add: list_all2_conv_all_nth)
qed

lemma mark_synced_ids [simp]: "map entry_id (mark_synced i es) = map entry_id es"
proof -
  have "\<forall>k<length es. entry_id (mark_synced i es ! k) = entry_id (es ! k)"
  proof (intro allI impI)
    fix k assume "k < length es"
    from mark_synced_nth [OF this, of i] show "entry_id (mark_synced i es ! k) = entry_id (es ! k)"
      by auto
  qed
  then show ?thesis by (simp add: list_eq_iff_nth_eq)
qed

lemma mark_synced_fresh:
  "\<forall>x\<in>set es. entry_id x \<noteq> entry_id e \<Longrightarrow>
     mark_synced (entry_id e) (es @ [e]) = es @ [e\<lparr>synced := True\<rparr>]"
  by (simp add: mark_synced_def findIndex_append_fresh)

lemma save_Parsed:
  assumes "getLocalEntries ls = Inr es"
  shows "save doc fetch cfg ls e =
     (if truthy (sheetsUrl cfg)
      then (case fetch (sheetsUrl cfg) (EntryBody e) of
              Some x \<Rightarrow>
                (ls\<lparr>carmel_checkin_entries := Some (Parsed (es @ [e]))\<rparr>,
                 Inr \<lparr>success = True, result_synced = False, error = Some (message x)\<rparr>)
            | None \<Rightarrow>
                (ls\<lparr>carmel_checkin_entries := Some (Parsed (mark_synced (entry_id e) (es @ [e])))\<rparr>,
                 Inr \<lparr>success = True, result_synced = True, error = None\<rparr>))
      else (ls\<lparr>carmel_checkin_entries := Some (Parsed (es @ [e]))\<rparr>,
            Inr \<lparr>success = True, result_synced = False, error = None\<rparr>))"
proof -
  let ?ls1 = "ls\<lparr>carmel_checkin_entries := Some (Parsed (es @ [e]))\<rparr>"
  have 1: "saveLocal doc ls e = (?ls1, Inr True)"
    by (rule saveLocal_Parsed [OF assms])
  have "findIndex (\<lambda>x. entry_id x = entry_id e) (es @ [e]) \<noteq> None"
    by (simp add: findIndex_None)
  then have 2: "markAsSynced ?ls1 (entry_id e) =
      (ls\<lparr>carmel_checkin_entries := Some (Parsed (mark_synced (entry_id e) (es @ [e])))\<rparr>, Inr ())"
    by (auto simp add: markAsSynced_def mark_synced_def)
  show ?thesis
    by (simp add: save_def 1 2 sendToSheets_def split: option.split)
qed

lemma count_id_frame:
  "list_all2 same_but_synced xs ys \<Longrightarrow>
     length (filter (\<lambda>x. entry_id x = i) ys) = length (filter (\<lambda>x. entry_id x = i) xs)"
  by (induction xs ys rule: list_all2_induct) (auto dest: same_but_synced_id)

text \<open>
  Claim C2. Whenever the store parses, \<open>save\<close> returns a result and leaves a store
  that is the old one, entry by entry and up to sync flags, followed by the new entry:
  one more entry with its identifier than before, and exactly the new entry (marked
  synced or not) at the end when the identifier is new to the store. This holds with
  no endpoint configured, with a call that resolves and with a call that rejects. The
  result reports success, is synced exactly when an endpoint is configured and the
  call resolved, and carries an error message exactly when the call rejected.
\<close>

theorem save_keeps_entry:
  assumes "getLocalEntries ls = Inr es"
  shows "\<exists>ls' r es'.
     save doc fetch cfg ls e = (ls', Inr r) \<and>
     getLocalEntries ls' = Inr es' \<and>
     list_all2 same_but_synced (es @ [e]) es' \<and>
     length (filter (\<lambda>x. entry_id x = entry_id e) es') =
       Suc (length (filter (\<lambda>x. entry_id x = entry_id e) es)) \<and>
     ((\<forall>x\<in>set es. entry_id x \<noteq> entry_id e) \<longrightarrow>
        es' = es @ [if result_synced r then e\<lparr>synced := True\<rparr> else e]) \<and>
     success r \<and>
     (result_synced r \<longleftrightarrow>
        truthy (sheetsUrl cfg) \<and> fetch (sheetsUrl cfg) (EntryBody e) = None) \<and>
     error r =
       (if truthy (sheetsUrl cfg) then map_option message (fetch (sheetsUrl cfg) (EntryBody e))
        else None)"
proof (cases "truthy (sheetsUrl cfg) \<and> fetch (sheetsUrl cfg) (EntryBody e) = None")
  case True
  let ?es' = "mark_synced (entry_id e) (es @ [e])"
  have f: "list_all2 same_but_synced (es @ [e]) ?es'" by (rule mark_synced_frame)
  have c: "length (filter (\<lambda>x. entry_id x = entry_id e) ?es') =
       Suc (length (filter (\<lambda>x. entry_id x = entry_id e) es))"
    using count_id_frame [OF f, of "entry_id e"] by simp
  show ?thesis
    using True f c mark_synced_fresh [of es e]
    by (simp add: save_Parsed [OF assms])
next
  case False
  let ?ls' = "ls\<lparr>carmel_checkin_entries := Some (Parsed (es @ [e]))\<rparr>"
  let ?r = "\<lparr>success = True, result_synced = False,
             error = (if truthy (sheetsUrl cfg)
                      then map_option message (fetch (sheetsUrl cfg) (EntryBody e)) else None)\<rparr>"
  have f: "list_all2 same_but_synced (es @ [e]) (es @ [e])"
    by (simp add: list_all2_conv_all_nth)
  have s: "save doc fetch cfg ls e = (?ls', Inr ?r)"
    using False by (auto simp add: save_Parsed [OF assms] split: option.split)
  show ?thesis
    apply (rule exI [of _ ?ls'], rule exI [of _ ?r], rule exI [of _ "es @ [e]"])
    using False f s by simp
qed

theorem save_keeps_entry_witness:
  "getLocalEntries empty_storage = Inr [] \<and>
   getLocalEntries (fst (save full_page no_remote default_config empty_storage sample_entry))
     = Inr [sample_entry\<lparr>synced := True\<rparr>] \<and>
   snd (save full_page no_remote default_config empty_storage sample_entry)
     = Inr \<lparr>success = True, result_synced = True, error = None\<rparr>"
proof -
  have h: "getLocalEntries empty_storage = Inr []"
    by (simp add: getLocalEntries_def empty_storage_def)
  have t: "truthy (sheetsUrl default_config)"
    by (simp add: default_config_def)
  have n: "no_remote (sheetsUrl default_config) (EntryBody sample_entry) = None"
    by (simp add: no_remote_def)
  from save_keeps_entry [OF h, of full_page no_remote default_config sample_entry]
  obtain ls' r es' where
    1: "save full_page no_remote default_config empty_storage sample_entry = (ls', Inr r)"
    and 2: "getLocalEntries ls' = Inr es'"
    and 3: "es' = [] @ [if result_synced r then sample_entry\<lparr>synced := True\<rparr> else sample_entry]"
    and 4: "success r" and 5: "result_synced r" and 6: "error r = None"
    using t n by auto
  from 4 5 6 have "r = \<lparr>success = True, result_synced = True, error = None\<rparr>"
    by (cases r) simp
  with h 1 2 3 5 show ?thesis by simp
qed

lemma sync_loop_result:
  assumes "truthy (sheetsUrl cfg)" and "getLocalEntries ls = Inr es"
  shows "\<exists>ls'. sync_loop fetch cfg us (ls, s, f) =
           (ls', s + length (filter (\<lambda>u. fetch (sheetsUrl cfg) (EntryBody u) = None) us),
                 f + length (filter (\<lambda>u. fetch (sheetsUrl cfg) (EntryBody u) \<noteq> None) us)) \<and>
         getLocalEntries ls' =
           Inr (fold (\<lambda>u es. if fetch (sheetsUrl cfg) (EntryBody u) = None
                              then mark_synced (entry_id u) es else es) us es) \<and>
         ((\<forall>u\<in>set us. fetch (sheetsUrl cfg) (EntryBody u) \<noteq> None) \<longrightarrow> ls' = ls)"
  using assms(2)
proof (induction us arbitrary: ls es s f)
  case Nil
  then show ?case by simp
next
  case (Cons u us)
  show ?case
  proof (cases "fetch (sheetsUrl cfg) (EntryBody u)")
    case (Some x)
    from Cons.IH [OF Cons.prems, of s "f + 1"] Some assms(1) show ?thesis
      by (auto simp add: sendToSheets_def)
  next
    case None
    obtain ls1 where 1: "markAsSynced ls (entry_id u) = (ls1, Inr ())"
      and 2: "getLocalEntries ls1 = Inr (mark_synced (entry_id u) es)"
      using markAsSynced_Parsed [OF Cons.prems, of "entry_id u"]
      by (cases "markAsSynced ls (entry_id u)") auto
    from Cons.IH [OF 2, of "s + 1" f] None assms(1) 1 show ?thesis
      by (auto simp add: sendToSheets_def)
  qed
qed






lemma frame_refl: "list_all2 same_but_synced es es"
  by (simp add: list_all2_conv_all_nth)

lemma frame_trans:
  "list_all2 same_but_synced xs ys \<Longrightarrow> list_all2 same_but_synced ys zs
     \<Longrightarrow> list_all2 same_but_synced xs zs"
  by (rule list_all2_trans [of same_but_synced same_but_synced same_but_synced])
     (auto intro: same_but_synced_trans)

lemma fold_mark_frame:
  "list_all2 same_but_synced es
     (fold (\<lambda>u es. if ok u then mark_synced (entry_id u) es else es) us es)"
proof (induction us arbitrary: es)
  case Nil
  show ?case by (simp add: frame_refl)
next
  case (Cons u us)
  have "list_all2 same_but_synced es (if ok u then mark_synced (entry_id u) es else es)"
    by (simp add: frame_refl mark_synced_frame)
  from frame_trans [OF this Cons.IH] show ?case by simp
qed






lemma save_keeps_entry_aux:
  assumes "getLocalEntries ls = Inr es"
  shows "\<exists>es'. getLocalEntries (fst (save doc fetch cfg ls e)) = Inr es' \<and>
               list_all2 same_but_synced (es @ [e]) es'"
  by (auto simp add: save_Parsed [OF assms] mark_synced_frame list_all2_conv_all_nth [of same_but_synced "es @ [e]" "es @ [e]"]
      split: option.split)

lemma syncAll_frame:
  assumes "getLocalEntries ls = Inr es"
  shows "\<exists>es'. getLocalEntries (fst (syncAll fetch cfg ls)) = Inr es' \<and>
               list_all2 same_but_synced es es'"
proof (cases "truthy (sheetsUrl cfg) \<and> filter (\<lambda>e. \<not> synced e) es \<noteq> []")
  case False
  then have "fst (syncAll fetch cfg ls) = ls"
    using assms by (auto simp add: syncAll_def)
  with assms show ?thesis by (simp add: frame_refl)
next
  case True
  then have t: "truthy (sheetsUrl cfg)" by simp
  from sync_loop_result [OF t assms, of fetch "filter (\<lambda>e. \<not> synced e) es" 0 0]
  obtain ls' a b where 1: "sync_loop fetch cfg (filter (\<lambda>e. \<not> synced e) es) (ls, 0, 0) = (ls', a, b)"
    and 2: "getLocalEntries ls' =
       Inr (fold (\<lambda>u es. if fetch (sheetsUrl cfg) (EntryBody u) = None
                          then mark_synced (entry_id u) es else es)
              (filter (\<lambda>e. \<not> synced e) es) es)"
    by blast
  have "fst (syncAll fetch cfg ls) = ls'"
    using True assms 1 by (simp add: syncAll_def)
  with 2 show ?thesis by (simp add: fold_mark_frame)
qed

lemma save_frame:
  assumes "getLocalEntries ls = Inr es"
  shows "\<exists>es'. getLocalEntries (fst (save doc fetch cfg ls e)) = Inr es' \<and>
               length es' = Suc (length es) \<and>
               list_all2 same_but_synced es (take (length es) es')"
proof -
  from save_keeps_entry_aux [OF assms, of doc fetch cfg e]
  obtain es' where 1: "getLocalEntries (fst (save doc fetch cfg ls e)) = Inr es'"
    and 2: "list_all2 same_but_synced (es @ [e]) es'"
    by auto
  from 2 have l: "length es' = Suc (length es)"
    by (auto dest: list_all2_lengthD)
  from 2 have "list_all2 same_but_synced (take (length es) (es @ [e])) (take (length es) es')"
    by (rule list_all2_takeI)
  with 1 l show ?thesis by simp
qed

text \<open>
  Claim C10. On a store that parses, \<open>saveLocal\<close> appends the entry at the end,
  \<open>markAsSynced\<close> changes at most the first entry with the identifier and only sets
  its sync flag, a confirmed \<open>clearLocal\<close> removes the whole store, and every other
  operation of the gateway leaves a store that holds the old entries in their places,
  each unchanged or with its sync flag set, with at most one entry appended.
\<close>

theorem gateway_store_frame:
  assumes "getLocalEntries ls = Inr es"
  shows
    "getLocalEntries (snd (gateway_run doc fetch (OpSaveLocal e) (cfg, ls))) = Inr (es @ [e]) \<and>
     (\<exists>es'. getLocalEntries (snd (gateway_run doc fetch (OpMarkAsSynced i) (cfg, ls))) = Inr es' \<and>
        length es' = length es \<and>
        (\<forall>k<length es. es' ! k = es ! k \<or>
           (entry_id (es ! k) = i \<and> (\<forall>j<k. entry_id (es ! j) \<noteq> i) \<and>
            es' ! k = (es ! k)\<lparr>synced := True\<rparr>))) \<and>
     carmel_checkin_entries (snd (gateway_run doc fetch (OpClearLocal True) (cfg, ls))) = None \<and>
     (op = OpClearLocal True \<or>
      (\<exists>es'. getLocalEntries (snd (gateway_run doc fetch op (cfg, ls))) = Inr es' \<and>
         length es \<le> length es' \<and> length es' \<le> Suc (length es) \<and>
         list_all2 same_but_synced es (take (length es) es')))"
proof -
  have A: "getLocalEntries (snd (gateway_run doc fetch (OpSaveLocal e) (cfg, ls))) = Inr (es @ [e])"
    by (simp add: saveLocal_Parsed [OF assms])
  have m: "getLocalEntries (fst (markAsSynced ls i)) = Inr (mark_synced i es)" for i
    using markAsSynced_Parsed [OF assms, of i] by simp
  have B: "\<exists>es'. getLocalEntries (snd (gateway_run doc fetch (OpMarkAsSynced i) (cfg, ls))) = Inr es' \<and>
        length es' = length es \<and>
        (\<forall>k<length es. es' ! k = es ! k \<or>
           (entry_id (es ! k) = i \<and> (\<forall>j<k. entry_id (es ! j) \<noteq> i) \<and>
            es' ! k = (es ! k)\<lparr>synced := True\<rparr>))"
    using mark_synced_nth [of _ es i] by (intro exI [of _ "mark_synced i es"]) (simp add: m)
  have C: "carmel_checkin_entries (snd (gateway_run doc fetch (OpClearLocal True) (cfg, ls))) = None"
    by (simp add: clearLocal_def Let_def updateLocalCount_def)
  have keep: "\<exists>es'. getLocalEntries ls' = Inr es' \<and>
         length es \<le> length es' \<and> length es' \<le> Suc (length es) \<and>
         list_all2 same_but_synced es (take (length es) es')"
    if "getLocalEntries ls' = Inr es" for ls'
    using that by (simp add: frame_refl)
  have D: "op = OpClearLocal True \<or>
      (\<exists>es'. getLocalEntries (snd (gateway_run doc fetch op (cfg, ls))) = Inr es' \<and>
         length es \<le> length es' \<and> length es' \<le> Suc (length es) \<and>
         list_all2 same_but_synced es (take (length es) es'))"
  proof (cases op)
    case OpInit
    then show ?thesis using keep [OF assms] by simp
  next
    case (OpSaveConfig urlInput)
    have "carmel_checkin_entries (fst (snd (saveConfig urlInput cfg ls))) = carmel_checkin_entries ls"
      by (simp add: saveConfig_def Let_def split: option.split)
    from getLocalEntries_cong [OF this] assms
    have "getLocalEntries (fst (snd (saveConfig urlInput cfg ls))) = Inr es"
      by simp
    from keep [OF this] OpSaveConfig show ?thesis
      by (simp add: split_beta)
  next
    case OpTestConnection
    then show ?thesis using keep [OF assms] by simp
  next
    case (OpSaveLocal x)
    then show ?thesis by (simp add: saveLocal_Parsed [OF assms] frame_refl)
  next
    case OpGetLocalEntries
    then show ?thesis using keep [OF assms] by simp
  next
    case OpUpdateLocalCount
    then show ?thesis using keep [OF assms] by simp
  next
    case (OpSave x)
    from save_frame [OF assms, of doc fetch cfg x] OpSave show ?thesis by auto
  next
    case (OpSendToSheets x)
    then show ?thesis using keep [OF assms] by simp
  next
    case (OpMarkAsSynced j)
    then show ?thesis using mark_synced_frame [of es j] by (simp add: m)
  next
    case OpSyncAll
    from syncAll_frame [OF assms, of fetch cfg]
    obtain es' where 1: "getLocalEntries (fst (syncAll fetch cfg ls)) = Inr es'"
      and 2: "list_all2 same_but_synced es es'"
      by blast
    from 2 have "length es' = length es" by (simp add: list_all2_lengthD)
    with 1 2 OpSyncAll show ?thesis by simp
  next
    case (OpExportCSV proto isoText)
    then show ?thesis using keep [OF assms] by simp
  next
    case (OpExportJSON stringify isoText)
    then show ?thesis using keep [OF assms] by simp
  next
    case (OpClearLocal confirmed)
    then show ?thesis using keep [OF assms] by (cases confirmed) (simp_all add: clearLocal_def)
  qed
  from A B C D show ?thesis by blast
qed

theorem gateway_store_frame_witness:
  "getLocalEntries two_entry_storage = Inr [sample_entry, second_entry] \<and>
   getLocalEntries
     (snd (gateway_run full_page no_remote (OpSaveLocal sample_entry)
             (default_config, two_entry_storage)))
     = Inr [sample_entry, second_entry, sample_entry] \<and>
   carmel_checkin_entries
     (snd (gateway_run full_page no_remote (OpClearLocal True)
             (default_config, two_entry_storage))) = None \<and>
   (\<exists>es'. getLocalEntries
            (snd (gateway_run full_page no_remote OpSyncAll (default_config, two_entry_storage)))
            = Inr es' \<and>
          list_all2 same_but_synced [sample_entry, second_entry] (take 2 es'))"
proof -
  have h: "getLocalEntries two_entry_storage = Inr [sample_entry, second_entry]"
    by (simp add: two_entry_storage_def getLocalEntries_def)
  from gateway_store_frame [OF h, of full_page no_remote sample_entry default_config
      "entry_id sample_entry" OpSyncAll] h
  show ?thesis by (auto simp add: numeral_2_eq_2)
qed

section \<open>The skip rule along every run\<close>























text \<open>
  The two stages in a row are the submission run to its end.
\<close>

lemma submit_in_stages:
  "submit doc fetch ev w =
     (case submit_begin doc fetch ev w of
        (w1, Rejected x) \<Rightarrow> (w1, Some x)
      | (w1, Finished) \<Rightarrow> (w1, None)
      | (w1, Waiting e outcome) \<Rightarrow> (submit_settle doc e outcome w1, None))"
proof -
  let ?e = "new_entry ev (app w)"
  obtain ls1 r where s: "saveLocal doc (localStorage w) ?e = (ls1, r)"
    by (cases "saveLocal doc (localStorage w) ?e")
  obtain ls2 u where m: "markAsSynced ls1 (entry_id ?e) = (ls2, u)"
    by (cases "markAsSynced ls1 (entry_id ?e)")
  show ?thesis
    using s m
    by (cases r; cases u)
       (simp_all add: submit_def submit_begin_def submit_settle_def submit_done_def save_def
          sendToSheets_def Let_def split: option.split)
qed




section \<open>Submission\<close>

lemma submit_Parsed:
  assumes "getLocalEntries (localStorage w) = Inr es"
  shows "\<exists>es'. getLocalEntries (localStorage (fst (submit doc fetch ev w))) = Inr es' \<and>
           list_all2 same_but_synced (es @ [new_entry ev (app w)]) es' \<and>
           snd (submit doc fetch ev w) = None \<and>
           app (fst (submit doc fetch ev w)) =
             (if doc ''screen-done'' then (app w)\<lparr>currentScreen := ''screen-done''\<rparr> else app w)"
proof -
  let ?e = "new_entry ev (app w)"
  from save_keeps_entry_aux [OF assms, of doc fetch "storage w" ?e]
  obtain es' where 1: "getLocalEntries (fst (save doc fetch (storage w) (localStorage w) ?e)) = Inr es'"
    and 2: "list_all2 same_but_synced (es @ [?e]) es'"
    by blast
  obtain ls' r where 3: "save doc fetch (storage w) (localStorage w) ?e = (ls', r)"
    by (cases "save doc fetch (storage w) (localStorage w) ?e")
  have "\<exists>res. r = Inr res"
    using 3 by (auto simp add: save_Parsed [OF assms] split: option.splits if_splits)
  then obtain res where 4: "r = Inr res" by blast
  have 5: "getLocalEntries ls' = Inr es'" using 1 3 by simp
  have 6: "getLocalEntries (localStorage (clearProgress (showScreen doc i (w\<lparr>localStorage := ls'\<rparr>)))) = Inr es'" for i
    using 5 by (simp add: clearProgress_def showScreen_def saveProgress_def getLocalEntries_def)
  show ?thesis
    using 2 3 4 6 [of "''screen-done''"]
    by (simp add: submit_def Let_def clearProgress_def showScreen_def saveProgress_def)
qed

text \<open>
  Claim C3, as amended. The screen check stands in the key handler, not in \<open>submit\<close>:
  a key other than Enter, or Enter on a screen other than q5, changes nothing, and
  Enter on q5 submits the free response. \<open>submit\<close> itself, called on any screen with a
  store that parses, appends a new entry with a generated identifier and, on a page
  that has the done screen, shows it.
\<close>

theorem submit_guard_in_key_handler:
  "(key \<noteq> ''Enter'' \<or> currentScreen (app w) \<noteq> ''screen-q5''
      \<longrightarrow> keydown doc fetch ev textarea key w = (w, None)) \<and>
   (key = ''Enter'' \<and> currentScreen (app w) = ''screen-q5''
      \<longrightarrow> keydown doc fetch ev textarea key w = submitFreeResponse doc fetch ev textarea w) \<and>
   (getLocalEntries (localStorage w) = Inr es \<longrightarrow>
      (\<exists>es'. getLocalEntries (localStorage (fst (submit doc fetch ev w))) = Inr es' \<and>
         length es' = Suc (length es) \<and>
         entry_id (last es') = generateId ev \<and>
         snd (submit doc fetch ev w) = None \<and>
         (doc ''screen-done'' \<longrightarrow>
            currentScreen (app (fst (submit doc fetch ev w))) = ''screen-done'')))"
proof -
  have A: "getLocalEntries (localStorage w) = Inr es \<longrightarrow>
      (\<exists>es'. getLocalEntries (localStorage (fst (submit doc fetch ev w))) = Inr es' \<and>
         length es' = Suc (length es) \<and>
         entry_id (last es') = generateId ev \<and>
         snd (submit doc fetch ev w) = None \<and>
         (doc ''screen-done'' \<longrightarrow>
            currentScreen (app (fst (submit doc fetch ev w))) = ''screen-done''))"
  proof
    assume h: "getLocalEntries (localStorage w) = Inr es"
    from submit_Parsed [OF h, of doc fetch ev]
    obtain es' where 1: "getLocalEntries (localStorage (fst (submit doc fetch ev w))) = Inr es'"
      and 2: "list_all2 same_but_synced (es @ [new_entry ev (app w)]) es'"
      and 3: "snd (submit doc fetch ev w) = None"
      and 4: "app (fst (submit doc fetch ev w)) =
             (if doc ''screen-done'' then (app w)\<lparr>currentScreen := ''screen-done''\<rparr> else app w)"
      by blast
    from 2 have l: "length es' = Suc (length es)" by (auto dest: list_all2_lengthD)
    from list_all2_nthD [OF 2, of "length es"]
    have "same_but_synced ((es @ [new_entry ev (app w)]) ! length es) (es' ! length es)"
      by simp
    then have "entry_id (es' ! length es) = generateId ev"
      by (auto dest: same_but_synced_id simp add: new_entry_def Let_def)
    moreover have "last es' = es' ! length es"
      using l by (cases es' rule: rev_cases) (simp_all add: nth_append)
    ultimately have 5: "entry_id (last es') = generateId ev" by simp
    from 1 l 5 3 4 show "\<exists>es'. getLocalEntries (localStorage (fst (submit doc fetch ev w))) = Inr es' \<and>
         length es' = Suc (length es) \<and>
         entry_id (last es') = generateId ev \<and>
         snd (submit doc fetch ev w) = None \<and>
         (doc ''screen-done'' \<longrightarrow>
            currentScreen (app (fst (submit doc fetch ev w))) = ''screen-done'')"
      by simp
  qed
  show ?thesis
    using A by (auto simp add: keydown_def)
qed

theorem submit_guard_in_key_handler_witness:
  "currentScreen (app q4_world) \<noteq> ''screen-q5'' \<and>
   keydown full_page no_remote sample_env (Some ''fine'') ''Enter'' q4_world = (q4_world, None) \<and>
   currentScreen (app q5_world) = ''screen-q5'' \<and>
   keydown full_page no_remote sample_env (Some ''fine'') ''Enter'' q5_world =
     submitFreeResponse full_page no_remote sample_env (Some ''fine'') q5_world \<and>
   getLocalEntries (localStorage q4_world) = Inr [] \<and>
   (\<exists>es'. getLocalEntries (localStorage (fst (submit full_page no_remote sample_env q4_world))) = Inr es' \<and>
      length es' = Suc 0 \<and>
      currentScreen (app (fst (submit full_page no_remote sample_env q4_world))) = ''screen-done'')"
proof -
  have h1: "currentScreen (app q4_world) \<noteq> ''screen-q5''"
    by (simp add: q4_world_def)
  have h2: "getLocalEntries (localStorage q4_world) = Inr []"
    by (simp add: q4_world_def getLocalEntries_def empty_storage_def)
  have h3: "full_page ''screen-done''" by (simp add: full_page_def)
  have h4: "currentScreen (app q5_world) = ''screen-q5''"
    by (simp add: q5_world_def)
  from submit_guard_in_key_handler
    [of "''Enter''" q4_world full_page no_remote sample_env "Some ''fine''" "[]"] h1 h2 h3
  have a: "keydown full_page no_remote sample_env (Some ''fine'') ''Enter'' q4_world = (q4_world, None) \<and>
    (\<exists>es'. getLocalEntries (localStorage (fst (submit full_page no_remote sample_env q4_world))) = Inr es' \<and>
      length es' = Suc 0 \<and>
      currentScreen (app (fst (submit full_page no_remote sample_env q4_world))) = ''screen-done'')"
    by auto
  from submit_guard_in_key_handler
    [of "''Enter''" q5_world full_page no_remote sample_env "Some ''fine''" "[]"] h4
  have b: "keydown full_page no_remote sample_env (Some ''fine'') ''Enter'' q5_world =
     submitFreeResponse full_page no_remote sample_env (Some ''fine'') q5_world"
    by blast
  from h1 h2 h4 a b show ?thesis by blast
qed

text \<open>
  Called on the welcome screen of a fresh session, \<open>submit\<close> stores an entry and
  shows the done screen.
\<close>

theorem submit_on_welcome_counterexample:
  "currentScreen (app (initial_world empty_storage)) = ''screen-welcome'' \<and>
   getLocalEntries (localStorage (initial_world empty_storage)) = Inr [] \<and>
   currentScreen (app (fst (submit full_page no_remote sample_env (initial_world empty_storage))))
     = ''screen-done'' \<and>
   getLocalEntries (localStorage (fst (submit full_page no_remote sample_env (initial_world empty_storage))))
     = Inr [(new_entry sample_env initial_state)\<lparr>synced := True\<rparr>]"
proof -
  have h: "getLocalEntries (localStorage (initial_world empty_storage)) = Inr []"
    by (simp add: initial_world_def getLocalEntries_def empty_storage_def)
  have s: "save full_page no_remote default_config empty_storage (new_entry sample_env initial_state) =
     (empty_storage\<lparr>carmel_checkin_entries :=
        Some (Parsed [(new_entry sample_env initial_state)\<lparr>synced := True\<rparr>])\<rparr>,
      Inr \<lparr>success = True, result_synced = True, error = None\<rparr>)"
    using h
    by (simp add: save_Parsed [of empty_storage "[]"] initial_world_def default_config_def
        no_remote_def mark_synced_def)
  have sub: "submit full_page no_remote sample_env (initial_world empty_storage) =
     (clearProgress (showScreen full_page ''screen-done''
        ((initial_world empty_storage)\<lparr>localStorage := empty_storage\<lparr>carmel_checkin_entries :=
           Some (Parsed [(new_entry sample_env initial_state)\<lparr>synced := True\<rparr>])\<rparr>\<rparr>)), None)"
    by (simp add: submit_def Let_def initial_world_def s)
  show ?thesis
    unfolding sub
    by (simp add: initial_world_def initial_state_def showScreen_def
        saveProgress_def clearProgress_def full_page_def getLocalEntries_def empty_storage_def)
qed

section \<open>Export\<close>

lemma header_line:
  "join '','' (map JStr headers) =
     ''Date,Time,Overall Day (1-5),Academic Focus (1-5),Social Interactions,Dysregulation Count,Coping Strategy Used,Notes,Synced''"
  by (simp add: headers_def)

text \<open>
  Claim C6, as amended. On an empty store \<open>exportCSV\<close> shows an alert and produces
  no file. On a store of one entry whose free response is a string or unset it
  produces one file: the header line, whose second column is \<open>Time\<close>, a newline, and
  the nine cells of the entry joined by commas in the order of the header. Only the
  free response is wrapped in double quotes, with its own double quotes doubled; the
  two enumeration cells go through their label tables.
\<close>

theorem exportCSV_header_and_row:
  "(getLocalEntries ls = Inr [] \<longrightarrow>
      exportCSV proto isoText ls = Inr (Alert ''No entries to export'')) \<and>
   (getLocalEntries ls = Inr [e] \<and>
    js_or (entry_responses e ''free_response'') (JStr []) = JStr s \<longrightarrow>
      exportCSV proto isoText ls =
        Inr (Download
          (''Date,Time,Overall Day (1-5),Academic Focus (1-5),Social Interactions,Dysregulation Count,Coping Strategy Used,Notes,Synced'' @
           [CHR 0x0A] @
           date e @ '','' @
           timestamp e @ '','' @
           join_cell (entry_responses e ''overall_day'') @ '','' @
           join_cell (entry_responses e ''academic_focus'') @ '','' @
           join_cell (formatSocialResponse proto (entry_responses e ''social_interactions'')) @ '','' @
           join_cell (entry_responses e ''dysregulation_count'') @ '','' @
           join_cell (formatCopingResponse proto (entry_responses e ''used_coping_strategy'')) @ '','' @
           ([CHR 0x22] @ double_quotes s @ [CHR 0x22]) @ '','' @
           (if synced e then ''Yes'' else ''No''))
          (''carmel-checkin-'' @ getDateString isoText @ ''.csv'')
          ''text/csv''))"
  by (simp add: exportCSV_def csv_row_def header_line Let_def)

lemma small_numbers:
  "show_int 0 = ''0''" "show_int 2 = ''2''" "show_int 3 = ''3''" "show_int 4 = ''4''"
  by (simp_all add: show_int_def show_nat.simps digit_char_def)

theorem exportCSV_header_and_row_witness:
  "getLocalEntries quoting_storage = Inr [quoting_entry] \<and>
   js_or (entry_responses quoting_entry ''free_response'') (JStr []) =
     JStr (''said '' @ [CHR 0x22] @ ''no'' @ [CHR 0x22]) \<and>
   exportCSV no_proto ''2023-11-15T08:00:00.000Z'' quoting_storage =
     Inr (Download
       (''Date,Time,Overall Day (1-5),Academic Focus (1-5),Social Interactions,Dysregulation Count,Coping Strategy Used,Notes,Synced'' @
        [CHR 0x0A] @
        ''2023-11-14,2023-11-14T22:13:20.000Z,4,3,Yes, at least one,2,Yes, and it helped,'' @
        [CHR 0x22] @ ''said '' @ [CHR 0x22, CHR 0x22] @ ''no'' @ [CHR 0x22, CHR 0x22] @ [CHR 0x22] @
        '',Yes'')
       ''carmel-checkin-2023-11-15.csv''
       ''text/csv'') \<and>
   exportCSV no_proto ''2023-11-15T08:00:00.000Z'' empty_storage = Inr (Alert ''No entries to export'')"
proof -
  have h1: "getLocalEntries quoting_storage = Inr [quoting_entry]"
    by (simp add: quoting_storage_def getLocalEntries_def)
  have h2: "js_or (entry_responses quoting_entry ''free_response'') (JStr []) =
     JStr (''said '' @ [CHR 0x22] @ ''no'' @ [CHR 0x22])"
    by (simp add: quoting_entry_def js_or_def)
  have h3: "getLocalEntries empty_storage = Inr []"
    by (simp add: empty_storage_def getLocalEntries_def)
  have cells:
    "date quoting_entry = ''2023-11-14''"
    "timestamp quoting_entry = ''2023-11-14T22:13:20.000Z''"
    "join_cell (entry_responses quoting_entry ''overall_day'') = ''4''"
    "join_cell (entry_responses quoting_entry ''academic_focus'') = ''3''"
    "join_cell (formatSocialResponse no_proto (entry_responses quoting_entry ''social_interactions''))
       = ''Yes, at least one''"
    "join_cell (entry_responses quoting_entry ''dysregulation_count'') = ''2''"
    "join_cell (formatCopingResponse no_proto (entry_responses quoting_entry ''used_coping_strategy''))
       = ''Yes, and it helped''"
    "synced quoting_entry"
    by (simp_all add: quoting_entry_def sample_entry_def small_numbers formatSocialResponse_def
        formatCopingResponse_def lookup_def social_labels_def coping_labels_def js_or_def)
  have d: "getDateString ''2023-11-15T08:00:00.000Z'' = ''2023-11-15''"
    by (simp add: getDateString_def)
  note a = exportCSV_header_and_row
    [of quoting_storage no_proto "''2023-11-15T08:00:00.000Z''" quoting_entry
        "''said '' @ [CHR 0x22] @ ''no'' @ [CHR 0x22]"]
  note b = exportCSV_header_and_row
    [of empty_storage no_proto "''2023-11-15T08:00:00.000Z''" quoting_entry "[]"]
  from a h1 h2 have
    1: "exportCSV no_proto ''2023-11-15T08:00:00.000Z'' quoting_storage =
     Inr (Download
       (''Date,Time,Overall Day (1-5),Academic Focus (1-5),Social Interactions,Dysregulation Count,Coping Strategy Used,Notes,Synced'' @
        [CHR 0x0A] @
        ''2023-11-14,2023-11-14T22:13:20.000Z,4,3,Yes, at least one,2,Yes, and it helped,'' @
        [CHR 0x22] @ ''said '' @ [CHR 0x22, CHR 0x22] @ ''no'' @ [CHR 0x22, CHR 0x22] @ [CHR 0x22] @
        '',Yes'')
       ''carmel-checkin-2023-11-15.csv''
       ''text/csv'')"
    by (simp add: cells double_quotes_def d)
  from b h3 have 2: "exportCSV no_proto ''2023-11-15T08:00:00.000Z'' empty_storage =
                      Inr (Alert ''No entries to export'')"
    by blast
  from h1 h2 1 2 show ?thesis by blast
qed

text \<open>
  The header line of the export differs from the line the claim gives: its second
  column is \<open>Time\<close>, not \<open>Timestamp\<close>.
\<close>

theorem csv_header_counterexample:
  "getLocalEntries one_entry_storage = Inr [sample_entry] \<and>
   exportCSV no_proto ''2023-11-15T08:00:00.000Z'' one_entry_storage =
     Inr (Download
       (''Date,Time,Overall Day (1-5),Academic Focus (1-5),Social Interactions,Dysregulation Count,Coping Strategy Used,Notes,Synced'' @
        [CHR 0x0A] @
        ''2023-11-14,2023-11-14T22:13:20.000Z,4,3,Yes, at least one,0,N/A (no dysregulation),'' @
        [CHR 0x22] @ ''fine'' @ [CHR 0x22] @ '',No'')
       ''carmel-checkin-2023-11-15.csv''
       ''text/csv'') \<and>
   ''Date,Time,Overall Day (1-5),Academic Focus (1-5),Social Interactions,Dysregulation Count,Coping Strategy Used,Notes,Synced''
     \<noteq> ''Date,Timestamp,Overall Day (1-5),Academic Focus (1-5),Social Interactions,Dysregulation Count,Coping Strategy Used,Notes,Synced''"
  by (simp add: exportCSV_def csv_row_def header_line Let_def one_entry_storage_def
      getLocalEntries_def sample_entry_def small_numbers formatSocialResponse_def
      formatCopingResponse_def lookup_def social_labels_def coping_labels_def js_or_def
      no_proto_def double_quotes_def getDateString_def)

section \<open>Resume on load\<close>

text \<open>
  Claim C7, as amended. The resume dialog is shown exactly when the stored session
  parses, its start time is set and not 0 and less than one hour (3600000 ms) before
  the clock, and its screen is a non-empty id other than welcome. A session started one
  hour ago or earlier is removed from storage and the state is left as it was. When
  the dialog is shown, accepting restores the session and shows its screen, declining
  removes the session from storage.
\<close>

theorem resume_within_the_hour:
  "(snd (loadProgress doc clock confirmed w) \<longleftrightarrow>
      (\<exists>p t. carmel_checkin_progress (localStorage w) = Some (Parsed p) \<and>
         startTime p = Some t \<and> t \<noteq> 0 \<and> clock - t < 3600000 \<and>
         currentScreen p \<noteq> [] \<and> currentScreen p \<noteq> ''screen-welcome'')) \<and>
   (carmel_checkin_progress (localStorage w) = Some (Parsed p) \<and> startTime p = Some t \<and>
    3600000 \<le> clock - t
      \<longrightarrow> loadProgress doc clock confirmed w = (clearProgress w, False)) \<and>
   (carmel_checkin_progress (localStorage w) = Some (Parsed p) \<and> startTime p = Some t \<and>
    t \<noteq> 0 \<and> clock - t < 3600000 \<and>
    currentScreen p \<noteq> [] \<and> currentScreen p \<noteq> ''screen-welcome''
      \<longrightarrow> loadProgress doc clock confirmed w =
            (if confirmed then showScreen doc (currentScreen p) (w\<lparr>app := p\<rparr>)
             else clearProgress (w\<lparr>app := p\<rparr>), True))"
proof -
  have A: "snd (loadProgress doc clock confirmed w) \<longleftrightarrow>
      (\<exists>p t. carmel_checkin_progress (localStorage w) = Some (Parsed p) \<and>
         startTime p = Some t \<and> t \<noteq> 0 \<and> clock - t < 3600000 \<and>
         currentScreen p \<noteq> [] \<and> currentScreen p \<noteq> ''screen-welcome'')"
  proof (cases "carmel_checkin_progress (localStorage w)")
    case None
    then show ?thesis by (simp add: loadProgress_def)
  next
    case (Some b)
    then show ?thesis
      by (cases b) (auto simp add: loadProgress_def Let_def split: option.split)
  qed
  have B: "carmel_checkin_progress (localStorage w) = Some (Parsed p) \<and> startTime p = Some t \<and>
    3600000 \<le> clock - t
      \<longrightarrow> loadProgress doc clock confirmed w = (clearProgress w, False)"
    by (simp add: loadProgress_def)
  have C: "carmel_checkin_progress (localStorage w) = Some (Parsed p) \<and> startTime p = Some t \<and>
    t \<noteq> 0 \<and> clock - t < 3600000 \<and>
    currentScreen p \<noteq> [] \<and> currentScreen p \<noteq> ''screen-welcome''
      \<longrightarrow> loadProgress doc clock confirmed w =
            (if confirmed then showScreen doc (currentScreen p) (w\<lparr>app := p\<rparr>)
             else clearProgress (w\<lparr>app := p\<rparr>), True)"
    by (simp add: loadProgress_def Let_def)
  from A B C show ?thesis by blast
qed

theorem resume_within_the_hour_witness:
  "carmel_checkin_progress (localStorage (session_world 1000)) = Some (Parsed (saved_session 1000)) \<and>
   startTime (saved_session 1000) = Some 1000 \<and> (1000::int) \<noteq> 0 \<and>
   (3600999::int) - 1000 < 3600000 \<and>
   currentScreen (saved_session 1000) \<noteq> [] \<and>
   currentScreen (saved_session 1000) \<noteq> ''screen-welcome'' \<and>
   snd (loadProgress full_page 3600999 True (session_world 1000)) \<and>
   currentScreen (app (fst (loadProgress full_page 3600999 True (session_world 1000)))) = ''screen-q3'' \<and>
   (3600000::int) \<le> 3601001 - 1000 \<and>
   loadProgress full_page 3601001 True (session_world 1000) =
     (clearProgress (session_world 1000), False)"
proof -
  have h1: "carmel_checkin_progress (localStorage (session_world 1000)) =
            Some (Parsed (saved_session 1000))"
    by (simp add: session_world_def initial_world_def)
  have h2: "startTime (saved_session 1000) = Some 1000"
    and h3: "currentScreen (saved_session 1000) \<noteq> []"
    and h4: "currentScreen (saved_session 1000) \<noteq> ''screen-welcome''"
    and h5: "currentScreen (saved_session 1000) = ''screen-q3''"
    by (simp_all add: saved_session_def)
  note a = resume_within_the_hour
    [of full_page 3600999 True "session_world 1000" "saved_session 1000" 1000]
  note b = resume_within_the_hour
    [of full_page 3601001 True "session_world 1000" "saved_session 1000" 1000]
  from a h1 h2 h3 h4 have
    1: "loadProgress full_page 3600999 True (session_world 1000) =
          (showScreen full_page (currentScreen (saved_session 1000))
             ((session_world 1000)\<lparr>app := saved_session 1000\<rparr>), True)"
    by simp
  from b h1 h2 have
    2: "loadProgress full_page 3601001 True (session_world 1000) =
          (clearProgress (session_world 1000), False)"
    by simp
  have 3: "snd (loadProgress full_page 3600999 True (session_world 1000))"
    unfolding 1 by simp
  have 4: "currentScreen (app (fst (loadProgress full_page 3600999 True (session_world 1000))))
             = ''screen-q3''"
    unfolding 1 by (simp add: h5 showScreen_def saveProgress_def full_page_def)
  from h1 h2 h3 h4 2 3 4 show ?thesis by simp
qed

text \<open>
  A session started exactly one hour before the clock is discarded, not offered.
\<close>

theorem exactly_one_hour_counterexample:
  "carmel_checkin_progress (localStorage (session_world 1000)) = Some (Parsed (saved_session 1000)) \<and>
   startTime (saved_session 1000) = Some 1000 \<and>
   (3601000::int) - 1000 = 3600000 \<and>
   loadProgress full_page 3601000 True (session_world 1000) =
     (clearProgress (session_world 1000), False)"
  by (simp add: loadProgress_def session_world_def initial_world_def saved_session_def
      empty_storage_def Let_def)

section \<open>Malformed stored text\<close>

text \<open>
  Claim C8. A stored configuration that does not parse makes \<open>storage.init\<close> throw
  the \<open>SyntaxError\<close> of \<open>JSON.parse\<close>, with the configuration left as it was; a stored
  session that does not parse is removed by \<open>loadProgress\<close>, which returns normally.
\<close>

theorem malformed_config_throws:
  "storage_init doc cfg (ls\<lparr>carmel_checkin_config := Some (Malformed m)\<rparr>) =
     (cfg, Inl (SyntaxError m)) \<and>
   loadProgress doc clock confirmed
     (w\<lparr>localStorage := (localStorage w)\<lparr>carmel_checkin_progress := Some (Malformed m)\<rparr>\<rparr>) =
     (clearProgress w, False)"
  by (simp add: storage_init_def loadProgress_def clearProgress_def)

section \<open>Identifiers\<close>

lemma digit_cases:
  "d < 10 \<Longrightarrow> d = 0 \<or> d = 1 \<or> d = 2 \<or> d = 3 \<or> d = 4 \<or> d = 5 \<or> d = 6 \<or> d = 7 \<or> d = 8 \<or> d = (9::nat)"
  by arith

lemma digit_char_values:
  "digit_char 0 = CHR ''0''" "digit_char (Suc 0) = CHR ''1''" "digit_char 2 = CHR ''2''"
  "digit_char 3 = CHR ''3''" "digit_char 4 = CHR ''4''" "digit_char 5 = CHR ''5''"
  "digit_char 6 = CHR ''6''" "digit_char 7 = CHR ''7''" "digit_char 8 = CHR ''8''"
  "digit_char 9 = CHR ''9''"
  by (simp_all add: digit_char_def)

lemma digit_char_inj:
  assumes "a < 10" and "b < 10" and "digit_char a = digit_char b"
  shows "a = b"
  using digit_cases [OF assms(1)] digit_cases [OF assms(2)] assms(3)
  by (elim disjE) (simp_all add: digit_char_values)

lemma digit_char_plain:
  assumes "d < 10"
  shows "digit_char d \<noteq> CHR ''_'' \<and> digit_char d \<noteq> CHR ''-''"
  using digit_cases [OF assms] by (elim disjE) (simp_all add: digit_char_values)

lemma show_nat_nonempty: "show_nat n \<noteq> []"
  by (subst show_nat.simps) simp

lemma show_nat_plain:
  "c \<in> set (show_nat n) \<Longrightarrow> c \<noteq> CHR ''_'' \<and> c \<noteq> CHR ''-''"
proof (induction n rule: show_nat.induct)
  case (1 n)
  show ?case
  proof (cases "n < 10")
    case True
    with "1.prems" have "c = digit_char n" by (simp add: show_nat.simps [of n])
    with digit_char_plain [OF True] show ?thesis by simp
  next
    case False
    with "1.prems" have "c \<in> set (show_nat (n div 10)) \<or> c = digit_char (n mod 10)"
      by (auto simp add: show_nat.simps [of n])
    moreover have "n mod 10 < 10" by simp
    ultimately show ?thesis
      using "1.IH" [OF False] digit_char_plain [of "n mod 10"] by auto
  qed
qed

lemma show_nat_inj: "show_nat a = show_nat b \<Longrightarrow> a = b"
proof (induction a arbitrary: b rule: show_nat.induct)
  case (1 a)
  show ?case
  proof (cases "a < 10")
    case True
    note a = True
    show ?thesis
    proof (cases "b < 10")
      case True
      with a "1.prems" have "digit_char a = digit_char b"
        by (simp add: show_nat.simps [of a] show_nat.simps [of b])
      with a True show ?thesis by (rule_tac digit_char_inj)
    next
      case False
      with a "1.prems" have "[digit_char a] = show_nat (b div 10) @ [digit_char (b mod 10)]"
        by (simp add: show_nat.simps [of a] show_nat.simps [of b])
      then have "show_nat (b div 10) = []" by simp
      with show_nat_nonempty show ?thesis by blast
    qed
  next
    case False
    note a = False
    show ?thesis
    proof (cases "b < 10")
      case True
      with a "1.prems" have "show_nat (a div 10) @ [digit_char (a mod 10)] = [digit_char b]"
        by (simp add: show_nat.simps [of a] show_nat.simps [of b])
      then have "show_nat (a div 10) = []" by simp
      with show_nat_nonempty show ?thesis by blast
    next
      case False
      with a "1.prems" have "show_nat (a div 10) @ [digit_char (a mod 10)] =
                             show_nat (b div 10) @ [digit_char (b mod 10)]"
        by (simp add: show_nat.simps [of a] show_nat.simps [of b])
      then have q: "show_nat (a div 10) = show_nat (b div 10)"
        and r: "digit_char (a mod 10) = digit_char (b mod 10)"
        by simp_all
      from "1.IH" [OF a q] have 1: "a div 10 = b div 10" .
      from digit_char_inj [OF _ _ r] have 2: "a mod 10 = b mod 10" by simp
      have "a = a div 10 * 10 + a mod 10" by simp
      also have "\<dots> = b div 10 * 10 + b mod 10" using 1 2 by simp
      also have "\<dots> = b" by simp
      finally show ?thesis .
    qed
  qed
qed

lemma show_int_plain: "c \<in> set (show_int i) \<Longrightarrow> c \<noteq> CHR ''_''"
  by (auto simp add: show_int_def dest: show_nat_plain split: if_splits)

lemma show_nat_no_minus: "CHR ''-'' # s \<noteq> show_nat n"
proof
  assume "CHR ''-'' # s = show_nat n"
  then have "CHR ''-'' \<in> set (show_nat n)" by (metis list.set_intros(1))
  with show_nat_plain show False by blast
qed

lemma show_int_inj:
  assumes "show_int a = show_int b"
  shows "a = b"
proof (cases "a < 0")
  case True
  note a = True
  show ?thesis
  proof (cases "b < 0")
    case True
    with a assms have "show_nat (nat (- a)) = show_nat (nat (- b))" by (simp add: show_int_def)
    from show_nat_inj [OF this] a True show ?thesis by simp
  next
    case False
    with a assms have "CHR ''-'' # show_nat (nat (- a)) = show_nat (nat b)"
      by (simp add: show_int_def)
    with show_nat_no_minus show ?thesis by blast
  qed
next
  case False
  note a = False
  show ?thesis
  proof (cases "b < 0")
    case True
    with a assms have "CHR ''-'' # show_nat (nat (- b)) = show_nat (nat a)"
      by (simp add: show_int_def)
    with show_nat_no_minus show ?thesis by blast
  next
    case False
    with a assms have "show_nat (nat a) = show_nat (nat b)" by (simp add: show_int_def)
    from show_nat_inj [OF this] a False show ?thesis by simp
  qed
qed

lemma takeWhile_separator: "c \<notin> set xs \<Longrightarrow> takeWhile (\<lambda>x. x \<noteq> c) (xs @ c # r) = xs"
  by (induction xs) auto

lemma split_at_separator:
  assumes "c \<notin> set xs" and "c \<notin> set ys" and "xs @ c # r = ys @ c # r'"
  shows "xs = ys \<and> r = r'"
proof -
  have "takeWhile (\<lambda>x. x \<noteq> c) (xs @ c # r) = xs"
    using assms(1) by (rule takeWhile_separator)
  moreover have "takeWhile (\<lambda>x. x \<noteq> c) (ys @ c # r') = ys"
    using assms(2) by (rule takeWhile_separator)
  ultimately have "xs = ys" using assms(3) by simp
  with assms(3) show ?thesis by simp
qed

lemma generateId_inj:
  "generateId ev = generateId ev' \<longleftrightarrow>
     id_now ev = id_now ev' \<and> take 9 (drop 2 (random36 ev)) = take 9 (drop 2 (random36 ev'))"
proof
  assume "generateId ev = generateId ev'"
  then have "show_int (id_now ev) @ CHR ''_'' # take 9 (drop 2 (random36 ev)) =
             show_int (id_now ev') @ CHR ''_'' # take 9 (drop 2 (random36 ev'))"
    by (simp add: generateId_def)
  from split_at_separator [OF _ _ this] show_int_plain
  have "show_int (id_now ev) = show_int (id_now ev') \<and>
        take 9 (drop 2 (random36 ev)) = take 9 (drop 2 (random36 ev'))"
    by blast
  then show "id_now ev = id_now ev' \<and>
     take 9 (drop 2 (random36 ev)) = take 9 (drop 2 (random36 ev'))"
    by (auto dest: show_int_inj)
next
  assume "id_now ev = id_now ev' \<and>
     take 9 (drop 2 (random36 ev)) = take 9 (drop 2 (random36 ev'))"
  then show "generateId ev = generateId ev'" by (simp add: generateId_def)
qed

lemma frame_ids: "list_all2 same_but_synced xs ys \<Longrightarrow> map entry_id ys = map entry_id xs"
  by (induction xs ys rule: list_all2_induct) (auto dest: same_but_synced_id)

lemma submit_ids:
  assumes "getLocalEntries (localStorage w) = Inr es"
  shows "\<exists>es'. getLocalEntries (localStorage (fst (submit doc fetch ev w))) = Inr es' \<and>
           map entry_id es' = map entry_id es @ [generateId ev]"
proof -
  from submit_Parsed [OF assms, of doc fetch ev]
  obtain es' where 1: "getLocalEntries (localStorage (fst (submit doc fetch ev w))) = Inr es'"
    and 2: "list_all2 same_but_synced (es @ [new_entry ev (app w)]) es'"
    by blast
  from frame_ids [OF 2] have "map entry_id es' = map entry_id es @ [generateId ev]"
    by (simp add: new_entry_def Let_def)
  with 1 show ?thesis by blast
qed

text \<open>
  Claim C9, as amended. The identifier is \<open>entry_\<close>, the clock in milliseconds, an
  underscore and up to nine characters of the random number's base-36 text: two
  identifiers are equal exactly when clock and random characters are. So an entry
  that \<open>submit\<close> produces has an identifier distinct from every stored entry whose
  identifier was generated at another clock reading or with other random characters,
  and then the identifiers of the store stay distinct. Nothing compares the new
  identifier with the store.
\<close>

theorem generated_identifier_fresh:
  "(generateId ev = generateId ev' \<longleftrightarrow>
      id_now ev = id_now ev' \<and>
      take 9 (drop 2 (random36 ev)) = take 9 (drop 2 (random36 ev'))) \<and>
   (getLocalEntries (localStorage w) = Inr es \<and> distinct (map entry_id es) \<and>
    (\<forall>x\<in>set es. \<exists>old. entry_id x = generateId old \<and>
        (id_now old \<noteq> id_now ev \<or>
         take 9 (drop 2 (random36 old)) \<noteq> take 9 (drop 2 (random36 ev))))
      \<longrightarrow> (\<exists>es'. getLocalEntries (localStorage (fst (submit doc fetch ev w))) = Inr es' \<and>
             map entry_id es' = map entry_id es @ [generateId ev] \<and>
             generateId ev \<notin> entry_id ` set es \<and>
             distinct (map entry_id es')))"
proof -
  have B: "\<exists>es'. getLocalEntries (localStorage (fst (submit doc fetch ev w))) = Inr es' \<and>
             map entry_id es' = map entry_id es @ [generateId ev] \<and>
             generateId ev \<notin> entry_id ` set es \<and>
             distinct (map entry_id es')"
    if h: "getLocalEntries (localStorage w) = Inr es" and d: "distinct (map entry_id es)"
      and f: "\<forall>x\<in>set es. \<exists>old. entry_id x = generateId old \<and>
        (id_now old \<noteq> id_now ev \<or>
         take 9 (drop 2 (random36 old)) \<noteq> take 9 (drop 2 (random36 ev)))"
  proof -
    have fresh: "generateId ev \<notin> entry_id ` set es"
    proof
      assume "generateId ev \<in> entry_id ` set es"
      then obtain x where x: "x \<in> set es" "entry_id x = generateId ev" by auto
      with f obtain old where o: "entry_id x = generateId old"
        "id_now old \<noteq> id_now ev \<or>
         take 9 (drop 2 (random36 old)) \<noteq> take 9 (drop 2 (random36 ev))"
        by blast
      from x(2) o(1) have "generateId old = generateId ev" by simp
      with o(2) show False by (simp add: generateId_inj)
    qed
    from submit_ids [OF h, of doc fetch ev]
    obtain es' where 1: "getLocalEntries (localStorage (fst (submit doc fetch ev w))) = Inr es'"
      and 2: "map entry_id es' = map entry_id es @ [generateId ev]"
      by blast
    from 2 d fresh have "distinct (map entry_id es')" by simp
    with 1 2 fresh show ?thesis by blast
  qed
  from generateId_inj [of ev ev'] B show ?thesis by blast
qed

theorem generated_identifier_fresh_witness:
  "getLocalEntries (localStorage one_entry_world) =
     Inr [sample_entry\<lparr>entry_id := generateId sample_env\<rparr>] \<and>
   distinct (map entry_id [sample_entry\<lparr>entry_id := generateId sample_env\<rparr>]) \<and>
   id_now sample_env \<noteq> id_now later_env \<and>
   generateId sample_env \<noteq> generateId later_env \<and>
   (\<exists>es'. getLocalEntries
            (localStorage (fst (submit full_page no_remote later_env one_entry_world))) = Inr es' \<and>
          map entry_id es' = [generateId sample_env, generateId later_env] \<and>
          distinct (map entry_id es'))"
proof -
  have h1: "getLocalEntries (localStorage one_entry_world) =
     Inr [sample_entry\<lparr>entry_id := generateId sample_env\<rparr>]"
    by (simp add: one_entry_world_def getLocalEntries_def)
  have h2: "id_now sample_env \<noteq> id_now later_env"
    by (simp add: sample_env_def later_env_def)
  note inst = generated_identifier_fresh
    [of sample_env later_env one_entry_world "[sample_entry\<lparr>entry_id := generateId sample_env\<rparr>]"
        full_page no_remote]
  from inst h2 have h3: "generateId sample_env \<noteq> generateId later_env" by blast
  have h4: "\<forall>x\<in>set [sample_entry\<lparr>entry_id := generateId sample_env\<rparr>].
      \<exists>old. entry_id x = generateId old \<and>
        (id_now old \<noteq> id_now later_env \<or>
         take 9 (drop 2 (random36 old)) \<noteq> take 9 (drop 2 (random36 later_env)))"
    using h2 by auto
  note inst2 = generated_identifier_fresh
    [of later_env later_env one_entry_world "[sample_entry\<lparr>entry_id := generateId sample_env\<rparr>]"
        full_page no_remote]
  from inst2 h1 h4 have
    "\<exists>es'. getLocalEntries
            (localStorage (fst (submit full_page no_remote later_env one_entry_world))) = Inr es' \<and>
          map entry_id es' = map entry_id [sample_entry\<lparr>entry_id := generateId sample_env\<rparr>] @
                             [generateId later_env] \<and>
          distinct (map entry_id es')"
    by auto
  with h1 h2 h3 show ?thesis by simp
qed

lemma new_entry_cong:
  "startTime st = startTime st' \<Longrightarrow> responses st = responses st'
     \<Longrightarrow> new_entry ev st = new_entry ev st'"
  by (simp add: new_entry_def)

lemma submit_fresh_session:
  "submit full_page no_remote sample_env (initial_world empty_storage) =
     (\<lparr>app = initial_state\<lparr>currentScreen := ''screen-done''\<rparr>,
       storage = default_config,
       localStorage = empty_storage\<lparr>carmel_checkin_entries :=
         Some (Parsed [(new_entry sample_env initial_state)\<lparr>synced := True\<rparr>])\<rparr>\<rparr>, None)"
proof -
  have h: "getLocalEntries empty_storage = Inr []"
    by (simp add: getLocalEntries_def empty_storage_def)
  have s: "save full_page no_remote default_config empty_storage (new_entry sample_env initial_state) =
     (empty_storage\<lparr>carmel_checkin_entries :=
        Some (Parsed [(new_entry sample_env initial_state)\<lparr>synced := True\<rparr>])\<rparr>,
      Inr \<lparr>success = True, result_synced = True, error = None\<rparr>)"
    by (simp add: save_Parsed [OF h] default_config_def no_remote_def mark_synced_def)
  show ?thesis
    by (simp add: submit_def Let_def initial_world_def s)
       (simp add: showScreen_def saveProgress_def clearProgress_def full_page_def
          empty_storage_def)
qed

text \<open>
  Two submissions that read the same clock and draw the same random number leave two
  entries with one identifier in the store.
\<close>

theorem same_clock_same_random_counterexample:
  "getLocalEntries
     (localStorage
        (fst (submit full_page no_remote sample_env
           (fst (submit full_page no_remote sample_env (initial_world empty_storage))))))
     = Inr [(new_entry sample_env initial_state)\<lparr>synced := True\<rparr>,
            new_entry sample_env initial_state] \<and>
   entry_id ((new_entry sample_env initial_state)\<lparr>synced := True\<rparr>) =
     entry_id (new_entry sample_env initial_state)"
proof -
  let ?E = "new_entry sample_env initial_state"
  let ?ls1 = "empty_storage\<lparr>carmel_checkin_entries := Some (Parsed [?E\<lparr>synced := True\<rparr>])\<rparr>"
  let ?w1 = "\<lparr>app = initial_state\<lparr>currentScreen := ''screen-done''\<rparr>,
       storage = default_config, localStorage = ?ls1\<rparr>"
  have h: "getLocalEntries ?ls1 = Inr [?E\<lparr>synced := True\<rparr>]"
    by (simp add: getLocalEntries_def)
  have e: "new_entry sample_env (initial_state\<lparr>currentScreen := ''screen-done''\<rparr>) = ?E"
    by (rule new_entry_cong) simp_all
  have s: "save full_page no_remote default_config ?ls1 ?E =
     (?ls1\<lparr>carmel_checkin_entries := Some (Parsed [?E\<lparr>synced := True\<rparr>, ?E])\<rparr>,
      Inr \<lparr>success = True, result_synced = True, error = None\<rparr>)"
    by (simp add: save_Parsed [OF h] default_config_def no_remote_def mark_synced_def)
  have "getLocalEntries (localStorage (fst (submit full_page no_remote sample_env ?w1))) =
          Inr [?E\<lparr>synced := True\<rparr>, ?E]"
    by (simp add: submit_def Let_def e s)
       (simp add: showScreen_def saveProgress_def clearProgress_def getLocalEntries_def)
  then show ?thesis by (simp add: submit_fresh_session)
qed

end
